theory Spec2Isabelle
  imports Main
begin

section \<open>Python strings\<close>

text \<open>
  A Python \<open>str\<close> is modelled as a \<^typ>\<open>string\<close>; each \<^typ>\<open>char\<close> stands for one code
  point below 256 (ASCII and Latin-1).  The string methods the program calls are
  written out on that range: \<open>str.isspace\<close> (per character), \<open>str.strip()\<close>,
  \<open>str.lower()\<close> and \<open>str.endswith\<close>.
\<close>

definition whitespace :: "char list" where
  "whitespace =
     [CHR 0x09, CHR 0x0A, CHR 0x0B, CHR 0x0C, CHR 0x0D,
      CHR 0x1C, CHR 0x1D, CHR 0x1E, CHR 0x1F, CHR 0x20, CHR 0x85, CHR 0xA0]"

definition isspace :: "char \<Rightarrow> bool" where
  "isspace c = (c \<in> set whitespace)"

definition strip :: "string \<Rightarrow> string" where
  "strip s = rev (dropWhile isspace (rev (dropWhile isspace s)))"

definition uppercase :: "char list" where
  "uppercase = ''ABCDEFGHIJKLMNOPQRSTUVWXYZ'' @
     [CHR 0xC0, CHR 0xC1, CHR 0xC2, CHR 0xC3, CHR 0xC4, CHR 0xC5, CHR 0xC6, CHR 0xC7,
      CHR 0xC8, CHR 0xC9, CHR 0xCA, CHR 0xCB, CHR 0xCC, CHR 0xCD, CHR 0xCE, CHR 0xCF,
      CHR 0xD0, CHR 0xD1, CHR 0xD2, CHR 0xD3, CHR 0xD4, CHR 0xD5, CHR 0xD6,
      CHR 0xD8, CHR 0xD9, CHR 0xDA, CHR 0xDB, CHR 0xDC, CHR 0xDD, CHR 0xDE]"

definition lowercase :: "char list" where
  "lowercase = ''abcdefghijklmnopqrstuvwxyz'' @
     [CHR 0xE0, CHR 0xE1, CHR 0xE2, CHR 0xE3, CHR 0xE4, CHR 0xE5, CHR 0xE6, CHR 0xE7,
      CHR 0xE8, CHR 0xE9, CHR 0xEA, CHR 0xEB, CHR 0xEC, CHR 0xED, CHR 0xEE, CHR 0xEF,
      CHR 0xF0, CHR 0xF1, CHR 0xF2, CHR 0xF3, CHR 0xF4, CHR 0xF5, CHR 0xF6,
      CHR 0xF8, CHR 0xF9, CHR 0xFA, CHR 0xFB, CHR 0xFC, CHR 0xFD, CHR 0xFE]"

definition lower_char :: "char \<Rightarrow> char" where
  "lower_char c = (case map_of (zip uppercase lowercase) c of Some c' \<Rightarrow> c' | None \<Rightarrow> c)"

definition lower :: "string \<Rightarrow> string" where
  "lower s = map lower_char s"

definition endswith :: "string \<Rightarrow> string \<Rightarrow> bool" where
  "endswith s suffix =
     (length suffix \<le> length s \<and> drop (length s - length suffix) s = suffix)"

section \<open>Exceptions\<close>

text \<open>
  Every exception the program can meet is a subclass of Python's \<open>Exception\<close>; the model
  keeps the class and the message.  \<open>error_str\<close> is \<open>str(e)\<close>, which the f-string
  \<open>f"Error: {e}"\<close> inserts; for a \<open>KeyError\<close> that is the \<open>repr\<close> of the key.
  The messages of errors that libraries raise are abridged.
\<close>

datatype error =
    KeyError string
  | IndexError string
  | AttributeError string
  | OSError string
  | APIError string

fun error_str :: "error \<Rightarrow> string" where
  "error_str (KeyError k) = [CHR 0x27] @ k @ [CHR 0x27]"
| "error_str (IndexError m) = m"
| "error_str (AttributeError m) = m"
| "error_str (OSError m) = m"
| "error_str (APIError m) = m"

section \<open>Configuration constants and the file system\<close>

text \<open>\<open>os.path.join\<close> with two components and \<open>os.path.basename\<close>, as \<open>posixpath\<close> has them.\<close>

definition os_path_join :: "string \<Rightarrow> string \<Rightarrow> string" where
  "os_path_join a b =
     (if b \<noteq> [] \<and> hd b = CHR ''/'' then b
      else if a = [] \<or> last a = CHR ''/'' then a @ b
      else a @ ''/'' @ b)"

definition os_path_basename :: "string \<Rightarrow> string" where
  "os_path_basename p = rev (takeWhile (\<lambda>c. c \<noteq> CHR ''/'') (rev p))"

definition LETTERS_DIR :: string where
  "LETTERS_DIR = os_path_join ''data'' ''Letters''"

definition ORDINANCES_DIR :: string where
  "ORDINANCES_DIR = os_path_join ''data'' ''Ordinances''"

definition VS_NAME :: string where
  "VS_NAME = ''ADU Permit Vector Store''"

definition statewide_file :: string where
  "statewide_file = ''ADUHandbookUpdate.pdf''"

datatype file_stream = FileStream string

text \<open>
  The file system is what the program asks of it: \<open>os.path.exists\<close>, \<open>os.listdir\<close> (which
  raises on a path that cannot be listed) and \<open>open(path, "rb")\<close>.  Nothing is assumed
  about how the three answers relate.
\<close>

record filesystem =
  os_path_exists :: "string \<Rightarrow> bool"
  os_listdir :: "string \<Rightarrow> error + string list"
  open_rb :: "string \<Rightarrow> error + file_stream"

section \<open>Instruction text\<close>

definition applicant_instructions :: string where
  "applicant_instructions =
     ''You are a chatbot for ADU permit discussions. Your role is that of an applicant '' @
     ''advocating for an ADU permit by persuasively citing the city's ADU ordinance. '' @
     ''For example, if asked, 'I'm preparing my application for an ADU permit. How does the ordinance justify an increased number of ADUs in my neighborhood?', '' @
     ''you should respond with a persuasive argument such as: 'According to section 3.2 of the ADUHandbookUpdate.pdf, the ordinance allows...'. '' @
     ''The uploaded documents include letters and ordinances, with the ADUHandbookUpdate.pdf (the statewide file) taking precedence over individual files. '' @
     ''Whenever possible, provide specific citations to ordinance sections that support the permit application.''"

definition planner_instructions :: string where
  "planner_instructions =
     ''You are a chatbot for ADU permit discussions. Your role is that of a city planner who is skeptical about an increased number of ADUs. '' @
     ''Your responses should be antagonistic, highlighting potential negative impacts of ADUs and questioning the applicant's interpretation of the ordinance. '' @
     ''For example, if asked, 'I'm preparing my application for an ADU permit. How does the ordinance justify an increased number of ADUs in my neighborhood?', '' @
     ''you should respond with a critical counterargument such as: 'The ordinance in section 3.2 of the ADUHandbookUpdate.pdf is ambiguous and does not fully address community impacts.' '' @
     ''The uploaded documents include letters and ordinances, with the ADUHandbookUpdate.pdf (the statewide file) taking precedence over individual files. '' @
     ''Whenever possible, provide specific citations to ordinance sections that support your perspective.''"

definition get_instructions :: "string \<Rightarrow> string" where
  "get_instructions role_name =
     (if role_name = ''Applicant'' then applicant_instructions else planner_instructions)"

section \<open>Document Set Resolver\<close>

text \<open>
  The two \<open>for filename in os.listdir(...)\<close> loops of \<open>get_pdf_file_paths\<close>, each
  appending to the list built so far.
\<close>

fun letters_loop :: "string list \<Rightarrow> string list \<Rightarrow> string list" where
  "letters_loop [] pdf_paths = pdf_paths"
| "letters_loop (filename # rest) pdf_paths =
     letters_loop rest
       (if endswith (lower filename) ''.pdf''
        then pdf_paths @ [os_path_join LETTERS_DIR filename]
        else pdf_paths)"

fun ordinances_loop :: "string list \<Rightarrow> string list \<Rightarrow> string list" where
  "ordinances_loop [] pdf_paths = pdf_paths"
| "ordinances_loop (filename # rest) pdf_paths =
     ordinances_loop rest
       (if endswith (lower filename) ''.pdf'' \<and> filename \<noteq> statewide_file
        then pdf_paths @ [os_path_join ORDINANCES_DIR filename]
        else pdf_paths)"

definition get_pdf_file_paths :: "filesystem \<Rightarrow> error + string list" where
  "get_pdf_file_paths fs =
     (case (if os_path_exists fs LETTERS_DIR
            then (case os_listdir fs LETTERS_DIR of
                    Inl e \<Rightarrow> Inl e
                  | Inr names \<Rightarrow> Inr (letters_loop names []))
            else Inr []) of
        Inl e \<Rightarrow> Inl e
      | Inr pdf_paths \<Rightarrow>
          if os_path_exists fs ORDINANCES_DIR then
            (let statewide_path = os_path_join ORDINANCES_DIR statewide_file;
                 pdf_paths' = (if os_path_exists fs statewide_path
                               then statewide_path # pdf_paths else pdf_paths)
             in case os_listdir fs ORDINANCES_DIR of
                  Inl e \<Rightarrow> Inl e
                | Inr names \<Rightarrow> Inr (ordinances_loop names pdf_paths'))
          else Inr pdf_paths)"

text \<open>
  What the function reads of the two folders: the names a folder yields (none when it
  does not exist, an error when it exists and cannot be listed), whether the reserved
  statewide file is there, and the paths each loop contributes.
\<close>

definition statewide_path :: string where
  "statewide_path = os_path_join ORDINANCES_DIR statewide_file"

definition letters_names :: "filesystem \<Rightarrow> error + string list" where
  "letters_names fs =
     (if os_path_exists fs LETTERS_DIR then os_listdir fs LETTERS_DIR else Inr [])"

definition ordinances_names :: "filesystem \<Rightarrow> error + string list" where
  "ordinances_names fs =
     (if os_path_exists fs ORDINANCES_DIR then os_listdir fs ORDINANCES_DIR else Inr [])"

definition statewide_part :: "filesystem \<Rightarrow> string list" where
  "statewide_part fs =
     (if os_path_exists fs ORDINANCES_DIR \<and> os_path_exists fs statewide_path
      then [statewide_path] else [])"

definition letters_pdfs :: "string list \<Rightarrow> string list" where
  "letters_pdfs names =
     map (os_path_join LETTERS_DIR) (filter (\<lambda>f. endswith (lower f) ''.pdf'') names)"

definition other_ordinances_pdfs :: "string list \<Rightarrow> string list" where
  "other_ordinances_pdfs names =
     map (os_path_join ORDINANCES_DIR)
       (filter (\<lambda>f. endswith (lower f) ''.pdf'' \<and> f \<noteq> statewide_file) names)"

text \<open>
  The order the specification gives for the Document Set, in its own words: the statewide
  file, then the other ordinances, then the letters.
\<close>

definition spec_document_set :: "filesystem \<Rightarrow> string list \<Rightarrow> string list \<Rightarrow> string list" where
  "spec_document_set fs ls os = statewide_part fs @ other_ordinances_pdfs os @ letters_pdfs ls"

text \<open>
  A file system holding just the two folders, each missing (\<open>None\<close>) or holding the
  given names, on a case-sensitive POSIX system; used for concrete runs.
\<close>

definition folders_fs :: "string list option \<Rightarrow> string list option \<Rightarrow> filesystem" where
  "folders_fs letters ordinances =
     \<lparr> os_path_exists = (\<lambda>p.
          (case letters of None \<Rightarrow> False
           | Some ns \<Rightarrow> p = LETTERS_DIR \<or> p \<in> set (map (os_path_join LETTERS_DIR) ns))
          \<or> (case ordinances of None \<Rightarrow> False
           | Some ns \<Rightarrow> p = ORDINANCES_DIR \<or> p \<in> set (map (os_path_join ORDINANCES_DIR) ns))),
       os_listdir = (\<lambda>p.
          if p = LETTERS_DIR then
            (case letters of None \<Rightarrow> Inl (OSError ''No such file or directory'')
             | Some ns \<Rightarrow> Inr ns)
          else if p = ORDINANCES_DIR then
            (case ordinances of None \<Rightarrow> Inl (OSError ''No such file or directory'')
             | Some ns \<Rightarrow> Inr ns)
          else Inl (OSError ''Not a directory'')),
       open_rb = (\<lambda>p. Inr (FileStream p)) \<rparr>"

section \<open>The hosted assistant API\<close>

text \<open>
  The objects the client library returns, with the fields the program reads (\<open>id\<close>,
  \<open>content[0].text.value\<close>) and those the claims speak of.  A transcript entry is the
  dictionary \<open>{"role": ..., "content": ...}\<close> kept in \<open>st.session_state.messages\<close>.
\<close>

record assistant =
  assistant_id :: string
  instructions :: string
  vector_store_ids :: "string list"

record vector_store =
  vector_store_id :: string

record thread =
  thread_id :: string

record run =
  run_id :: string
  status :: string

datatype content_block = TextContentBlock string | ImageFileContentBlock string

record thread_message =
  message_content :: "content_block list"

record chat_message =
  role :: string
  content :: string

text \<open>Every request the program sends, with its arguments.\<close>

datatype api_call =
    AssistantsCreate string string string "string list"
  | AssistantsUpdateInstructions string string
  | AssistantsUpdateToolResources string "string list"
  | VectorStoresRetrieve string
  | VectorStoresCreate string
  | FileBatchesUploadAndPoll string "file_stream list"
  | ThreadsCreate "chat_message list"
  | RunsCreateAndPoll string string string nat nat
  | MessagesList string string

text \<open>
  The remote service is a parameter.  Each endpoint answers from the list of all requests
  sent so far in the session, the current one last: it returns an object or raises.  No
  assumption is made on the answers.  A call that never returns is outside the model.
\<close>

record client =
  assistants_create :: "api_call list \<Rightarrow> error + assistant"
  assistants_update :: "api_call list \<Rightarrow> error + assistant"
  vector_stores_retrieve :: "api_call list \<Rightarrow> error + vector_store"
  vector_stores_create :: "api_call list \<Rightarrow> error + vector_store"
  file_batches_upload_and_poll :: "api_call list \<Rightarrow> error + unit"
  threads_create :: "api_call list \<Rightarrow> error + thread"
  runs_create_and_poll :: "api_call list \<Rightarrow> error + run"
  messages_list :: "api_call list \<Rightarrow> error + thread_message list"

type_synonym secrets = "string \<rightharpoonup> (string \<rightharpoonup> string)"

section \<open>Session state and effects\<close>

text \<open>
  \<open>st.session_state\<close> has four slots, each absent (\<open>None\<close>) until the script first sets
  it; the \<open>vector_store\<close> slot is first set to Python's \<open>None\<close>.  The world a script
  run acts on is the session state, the requests sent so far and what was written to the
  page.
\<close>

record session_state =
  vector_store :: "vector_store option option"
  current_role :: "string option"
  assistant :: "assistant option"
  messages :: "chat_message list option"

datatype ui_arg = Str string | Err error | StrList "string list"

text \<open>
  What the script writes to the page: \<open>st.sidebar.write\<close> with its arguments, the page
  title (its text is not kept) and \<open>st.chat_message(role).write(content)\<close>.
\<close>

datatype ui_event =
    SidebarWrite "ui_arg list"
  | Title
  | ChatMessageWrite string string

record world =
  session :: session_state
  calls :: "api_call list"
  ui :: "ui_event list"

definition new_session :: world where
  "new_session =
     \<lparr> session = \<lparr> vector_store = None, current_role = None, assistant = None,
                   messages = None \<rparr>,
       calls = [], ui = [] \<rparr>"

text \<open>
  A piece of the script is a function from the world to a result (a value, or the
  exception that stopped it) and the world it leaves.  What was done before an exception
  stays done.
\<close>

type_synonym 'a prog = "world \<Rightarrow> (error + 'a) \<times> world"

definition ret :: "'a \<Rightarrow> 'a prog" where
  "ret x w = (Inr x, w)"

definition raise :: "error \<Rightarrow> 'a prog" where
  "raise e w = (Inl e, w)"

definition lift :: "error + 'a \<Rightarrow> 'a prog" where
  "lift r w = (r, w)"

definition bind :: "'a prog \<Rightarrow> ('a \<Rightarrow> 'b prog) \<Rightarrow> 'b prog" where
  "bind m f w = (case m w of (Inl e, w') \<Rightarrow> (Inl e, w') | (Inr x, w') \<Rightarrow> f x w')"

definition try_except :: "'a prog \<Rightarrow> (error \<Rightarrow> 'a prog) \<Rightarrow> 'a prog" where
  "try_except m handler w =
     (case m w of (Inl e, w') \<Rightarrow> handler e w' | (Inr x, w') \<Rightarrow> (Inr x, w'))"

definition api :: "(api_call list \<Rightarrow> error + 'a) \<Rightarrow> api_call \<Rightarrow> 'a prog" where
  "api endpoint call w =
     (let log = calls w @ [call] in (endpoint log, w\<lparr>calls := log\<rparr>))"

definition st_write :: "ui_event list \<Rightarrow> unit prog" where
  "st_write events w = (Inr (), w\<lparr>ui := ui w @ events\<rparr>)"

definition in_session :: "(session_state \<Rightarrow> 'a option) \<Rightarrow> bool prog" where
  "in_session slot w = (Inr (slot (session w) \<noteq> None), w)"

definition get_slot :: "(session_state \<Rightarrow> 'a option) \<Rightarrow> string \<Rightarrow> 'a prog" where
  "get_slot slot name w =
     (case slot (session w) of
        None \<Rightarrow> (Inl (AttributeError (''st.session_state has no attribute '' @ name)), w)
      | Some v \<Rightarrow> (Inr v, w))"

definition set_vector_store :: "vector_store option \<Rightarrow> unit prog" where
  "set_vector_store v w = (Inr (), w\<lparr>session := (session w)\<lparr>vector_store := Some v\<rparr>\<rparr>)"

definition set_current_role :: "string \<Rightarrow> unit prog" where
  "set_current_role v w = (Inr (), w\<lparr>session := (session w)\<lparr>current_role := Some v\<rparr>\<rparr>)"

definition set_assistant :: "assistant \<Rightarrow> unit prog" where
  "set_assistant v w = (Inr (), w\<lparr>session := (session w)\<lparr>assistant := Some v\<rparr>\<rparr>)"

definition set_messages :: "chat_message list \<Rightarrow> unit prog" where
  "set_messages v w = (Inr (), w\<lparr>session := (session w)\<lparr>messages := Some v\<rparr>\<rparr>)"

definition append_message :: "chat_message \<Rightarrow> unit prog" where
  "append_message m = bind (get_slot messages ''messages'') (\<lambda>ms. set_messages (ms @ [m]))"

section \<open>Session initialisation and role reconciliation\<close>

definition greeting :: chat_message where
  "greeting =
     \<lparr> role = ''assistant'',
       content = ''How can I assist you with your ADU permit application?'' \<rparr>"

definition init_session_state :: "client \<Rightarrow> string \<Rightarrow> unit prog" where
  "init_session_state c role_selection =
     bind (in_session vector_store) (\<lambda>present.
     bind (if \<not> present then set_vector_store None else ret ()) (\<lambda>_.
     bind (in_session current_role) (\<lambda>present.
     bind (if \<not> present then set_current_role role_selection else ret ()) (\<lambda>_.
     bind (in_session assistant) (\<lambda>present.
     bind (if \<not> present then
             bind (api (assistants_create c)
                     (AssistantsCreate ''ADU Permit Chatbot Assistant''
                        (get_instructions role_selection) ''gpt-4o'' [''file_search'']))
               set_assistant
           else ret ()) (\<lambda>_.
     bind (in_session messages) (\<lambda>present.
       if \<not> present then set_messages [greeting] else ret ())))))))"

definition reconcile_role :: "client \<Rightarrow> string \<Rightarrow> unit prog" where
  "reconcile_role c role_selection =
     bind (get_slot current_role ''current_role'') (\<lambda>recorded.
       if recorded \<noteq> role_selection then
         bind (get_slot assistant ''assistant'') (\<lambda>a.
         bind (api (assistants_update c)
                 (AssistantsUpdateInstructions (assistant_id a)
                    (get_instructions role_selection))) (\<lambda>a'.
         bind (set_assistant a') (\<lambda>_.
         set_current_role role_selection)))
       else ret ())"

section \<open>Remote Call Adapter\<close>

definition generate_response :: "client \<Rightarrow> chat_message list \<Rightarrow> string prog" where
  "generate_response c msgs =
     bind (get_slot assistant ''assistant'') (\<lambda>a.
     bind (api (threads_create c) (ThreadsCreate msgs)) (\<lambda>th.
     bind (api (runs_create_and_poll c)
             (RunsCreateAndPoll (thread_id th) (assistant_id a)
                ''Please answer the user's query based on the conversation context.''
                20000 5000)) (\<lambda>r.
     bind (api (messages_list c) (MessagesList (thread_id th) (run_id r))) (\<lambda>messages_list.
       case messages_list of
         [] \<Rightarrow> ret ''No response received from the assistant.''
       | m # _ \<Rightarrow>
           (case message_content m of
              [] \<Rightarrow> raise (IndexError ''list index out of range'')
            | TextContentBlock v # _ \<Rightarrow> ret (strip v)
            | ImageFileContentBlock _ # _ \<Rightarrow>
                raise (AttributeError
                  ''ImageFileContentBlock object has no attribute text''))))))"

section \<open>Remote Index Manager\<close>

definition load_persisted :: "client \<Rightarrow> secrets \<Rightarrow> vector_store option prog" where
  "load_persisted c secrets =
     (case secrets ''VECTOR_STORE_ID'' of
        None \<Rightarrow> ret None
      | Some entry \<Rightarrow>
          (case entry ''vs_id'' of
             None \<Rightarrow> raise (KeyError ''vs_id'')
           | Some stored_vector_store_id \<Rightarrow>
               try_except
                 (bind (api (vector_stores_retrieve c)
                          (VectorStoresRetrieve stored_vector_store_id)) (\<lambda>vs.
                  bind (st_write [SidebarWrite
                          [Str ''Loaded persisted vector store ID from secrets:'',
                           Str stored_vector_store_id]]) (\<lambda>_.
                  ret (Some vs))))
                 (\<lambda>e.
                  bind (st_write [SidebarWrite
                          [Str ''Failed to load persisted vector store from secrets. Creating a new one. Error:'',
                           Err e]]) (\<lambda>_.
                  ret None))))"

fun open_all :: "filesystem \<Rightarrow> string list \<Rightarrow> error + file_stream list" where
  "open_all fs [] = Inr []"
| "open_all fs (path # rest) =
     (case open_rb fs path of
        Inl e \<Rightarrow> Inl e
      | Inr f \<Rightarrow> (case open_all fs rest of Inl e \<Rightarrow> Inl e | Inr fs' \<Rightarrow> Inr (f # fs')))"

definition create_vector_store :: "client \<Rightarrow> filesystem \<Rightarrow> vector_store prog" where
  "create_vector_store c fs =
     bind (api (vector_stores_create c) (VectorStoresCreate VS_NAME)) (\<lambda>vs.
     bind (lift (get_pdf_file_paths fs)) (\<lambda>pdf_paths.
     bind (if pdf_paths \<noteq> [] then
             bind (lift (open_all fs pdf_paths)) (\<lambda>file_streams.
             bind (api (file_batches_upload_and_poll c)
                     (FileBatchesUploadAndPoll (vector_store_id vs) file_streams)) (\<lambda>_.
             st_write [SidebarWrite
               [Str ''Uploaded files:'', StrList (map os_path_basename pdf_paths)]]))
           else
             st_write [SidebarWrite
               [Str ''No PDF files found in the specified directories.'']]) (\<lambda>_.
     bind (st_write [SidebarWrite
             [Str ''New vector store ID (please update your secrets.toml manually):'',
              Str (vector_store_id vs)]]) (\<lambda>_.
     ret vs))))"

definition init_vector_store :: "client \<Rightarrow> filesystem \<Rightarrow> secrets \<Rightarrow> unit prog" where
  "init_vector_store c fs secrets =
     bind (get_slot vector_store ''vector_store'') (\<lambda>current.
       case current of
         Some _ \<Rightarrow> ret ()
       | None \<Rightarrow>
           bind (load_persisted c secrets) (\<lambda>loaded.
           bind (case loaded of Some vs \<Rightarrow> ret vs | None \<Rightarrow> create_vector_store c fs) (\<lambda>vs.
           bind (set_vector_store (Some vs)) (\<lambda>_.
           bind (get_slot assistant ''assistant'') (\<lambda>a.
           bind (get_slot vector_store ''vector_store'') (\<lambda>stored.
           bind (case stored of
                   None \<Rightarrow> raise (AttributeError ''NoneType object has no attribute id'')
                 | Some vs' \<Rightarrow>
                     api (assistants_update c)
                       (AssistantsUpdateToolResources (assistant_id a)
                          [vector_store_id vs']))
             set_assistant))))))"

section \<open>Main chatbot interface\<close>

definition render_history :: "unit prog" where
  "render_history =
     bind (st_write [Title]) (\<lambda>_.
     bind (get_slot messages ''messages'') (\<lambda>ms.
     st_write (map (\<lambda>msg. ChatMessageWrite (role msg) (content msg)) ms)))"

definition chat_input_handler :: "client \<Rightarrow> string option \<Rightarrow> unit prog" where
  "chat_input_handler c chat_input =
     (case chat_input of
        None \<Rightarrow> ret ()
      | Some prompt \<Rightarrow>
          if prompt = [] then ret ()
          else
            bind (append_message \<lparr>role = ''user'', content = prompt\<rparr>) (\<lambda>_.
            bind (st_write [ChatMessageWrite ''user'' prompt]) (\<lambda>_.
            try_except
              (bind (get_slot messages ''messages'') (\<lambda>ms.
               bind (generate_response c ms) (\<lambda>bot_response.
               bind (append_message \<lparr>role = ''assistant'', content = bot_response\<rparr>) (\<lambda>_.
               st_write [ChatMessageWrite ''assistant'' bot_response]))))
              (\<lambda>e.
               bind (append_message
                       \<lparr>role = ''assistant'', content = ''Error: '' @ error_str e\<rparr>) (\<lambda>_.
               st_write [ChatMessageWrite ''assistant'' (''Error: '' @ error_str e)])))))"

text \<open>
  One run of the script, top to bottom, for one interaction.  Its inputs are the client
  object, the file system and the secrets, the role chosen in the sidebar and what the
  chat input holds (\<open>None\<close> when nothing was submitted).  The chat input is read only
  after everything before it has run without an exception.
\<close>

definition prepare :: "client \<Rightarrow> filesystem \<Rightarrow> secrets \<Rightarrow> string \<Rightarrow> unit prog" where
  "prepare c fs secrets role_selection =
     bind (init_session_state c role_selection) (\<lambda>_.
     bind (reconcile_role c role_selection) (\<lambda>_.
     bind (init_vector_store c fs secrets) (\<lambda>_.
     render_history)))"

definition script ::
  "client \<Rightarrow> filesystem \<Rightarrow> secrets \<Rightarrow> string \<Rightarrow> string option \<Rightarrow> unit prog" where
  "script c fs secrets role_selection chat_input =
     bind (prepare c fs secrets role_selection) (\<lambda>_. chat_input_handler c chat_input)"

text \<open>
  A session is a sequence of interactions.  An exception ends the run in which it is
  raised; the session state it leaves is the state the next run starts from.
\<close>

fun run_session ::
  "client \<Rightarrow> filesystem \<Rightarrow> secrets \<Rightarrow> (string \<times> string option) list \<Rightarrow> world \<Rightarrow> world" where
  "run_session c fs secrets [] w = w"
| "run_session c fs secrets ((role_selection, chat_input) # rest) w =
     run_session c fs secrets rest (snd (script c fs secrets role_selection chat_input w))"

section \<open>Vocabulary for the statements\<close>

text \<open>The requests of one reply cycle, as \<open>generate_response\<close> sends them.\<close>

definition run_request :: "thread \<Rightarrow> assistant \<Rightarrow> api_call" where
  "run_request th a =
     RunsCreateAndPoll (thread_id th) (assistant_id a)
       ''Please answer the user's query based on the conversation context.'' 20000 5000"

definition list_request :: "thread \<Rightarrow> run \<Rightarrow> api_call" where
  "list_request th rn = MessagesList (thread_id th) (run_id rn)"

text \<open>
  An error \<open>e\<close> is raised in the reply cycle that starts after the requests \<open>log\<close>: by
  thread creation, by run submission and polling, or by message retrieval.
\<close>

definition reply_cycle_raises ::
  "client \<Rightarrow> api_call list \<Rightarrow> chat_message list \<Rightarrow> assistant \<Rightarrow> error \<Rightarrow> bool" where
  "reply_cycle_raises c log msgs a e =
     (case threads_create c (log @ [ThreadsCreate msgs]) of
        Inl e1 \<Rightarrow> e1 = e
      | Inr th \<Rightarrow>
          (case runs_create_and_poll c (log @ [ThreadsCreate msgs, run_request th a]) of
             Inl e2 \<Rightarrow> e2 = e
           | Inr rn \<Rightarrow>
               (case messages_list c
                       (log @ [ThreadsCreate msgs, run_request th a, list_request th rn]) of
                  Inl e3 \<Rightarrow> e3 = e
                | Inr ml \<Rightarrow> False)))"

definition user_turn :: "string \<Rightarrow> chat_message" where
  "user_turn prompt = \<lparr>role = ''user'', content = prompt\<rparr>"

definition error_turn :: "error \<Rightarrow> chat_message" where
  "error_turn e = \<lparr>role = ''assistant'', content = ''Error: '' @ error_str e\<rparr>"

definition transcript :: "world \<Rightarrow> chat_message list option" where
  "transcript w = messages (session w)"

text \<open>A program leaves a projection of the world as it found it.\<close>

definition unchanged :: "(world \<Rightarrow> 'b) \<Rightarrow> 'a prog \<Rightarrow> bool" where
  "unchanged f m = (\<forall>w. f (snd (m w)) = f w)"

text \<open>Kinds of request, and how many of the requests sent so far are of a given kind.\<close>

fun is_thread_create :: "api_call \<Rightarrow> bool" where
  "is_thread_create (ThreadsCreate _) = True"
| "is_thread_create _ = False"

fun is_retrieve :: "api_call \<Rightarrow> bool" where
  "is_retrieve (VectorStoresRetrieve _) = True"
| "is_retrieve _ = False"

fun is_tool_resources_update :: "api_call \<Rightarrow> bool" where
  "is_tool_resources_update (AssistantsUpdateToolResources _ _) = True"
| "is_tool_resources_update _ = False"

fun is_instructions_update :: "api_call \<Rightarrow> bool" where
  "is_instructions_update (AssistantsUpdateInstructions _ _) = True"
| "is_instructions_update _ = False"

fun is_assistant_create :: "api_call \<Rightarrow> bool" where
  "is_assistant_create (AssistantsCreate _ _ _ _) = True"
| "is_assistant_create _ = False"

fun is_index_create :: "api_call \<Rightarrow> bool" where
  "is_index_create (VectorStoresCreate _) = True"
| "is_index_create _ = False"

fun is_upload :: "api_call \<Rightarrow> bool" where
  "is_upload (FileBatchesUploadAndPoll _ _) = True"
| "is_upload _ = False"


definition count_calls :: "(api_call \<Rightarrow> bool) \<Rightarrow> world \<Rightarrow> nat" where
  "count_calls kind w = length (filter kind (calls w))"

text \<open>A program keeps a property of the world that holds when it starts.\<close>

definition invariant :: "(world \<Rightarrow> bool) \<Rightarrow> 'a prog \<Rightarrow> bool" where
  "invariant I m = (\<forall>w. I w \<longrightarrow> I (snd (m w)))"

text \<open>
  The requests that create the assistant or change its instructions, and what role
  reconciliation is about: the recorded role and those requests.
\<close>

fun is_persona_call :: "api_call \<Rightarrow> bool" where
  "is_persona_call (AssistantsCreate _ _ _ _) = True"
| "is_persona_call (AssistantsUpdateInstructions _ _) = True"
| "is_persona_call _ = False"

definition persona :: "world \<Rightarrow> string option \<times> api_call list" where
  "persona w = (current_role (session w), filter is_persona_call (calls w))"

definition has_assistant :: "world \<Rightarrow> bool" where
  "has_assistant w = (assistant (session w) \<noteq> None)"

definition recorded_role :: "world \<Rightarrow> string \<Rightarrow> string" where
  "recorded_role w role_selection =
     (case current_role (session w) of None \<Rightarrow> role_selection | Some recorded \<Rightarrow> recorded)"

section \<open>A stand-in for the remote service\<close>

text \<open>
  For concrete runs: a service with one assistant, fixed identifiers, and a chosen set of
  requests that fail with a connection error.  A failed request changes nothing; a run
  produces the messages \<open>reply\<close>.
\<close>

definition apply_call :: "(api_call \<Rightarrow> bool) \<Rightarrow> assistant \<Rightarrow> api_call \<Rightarrow> assistant" where
  "apply_call failing a call =
     (if failing call then a
      else (case call of
              AssistantsCreate _ i _ _ \<Rightarrow> a\<lparr>instructions := i, vector_store_ids := []\<rparr>
            | AssistantsUpdateInstructions _ i \<Rightarrow> a\<lparr>instructions := i\<rparr>
            | AssistantsUpdateToolResources _ ids \<Rightarrow> a\<lparr>vector_store_ids := ids\<rparr>
            | _ \<Rightarrow> a))"

definition remote_assistant :: "(api_call \<Rightarrow> bool) \<Rightarrow> api_call list \<Rightarrow> assistant" where
  "remote_assistant failing log =
     foldl (apply_call failing)
       \<lparr>assistant_id = ''asst_1'', instructions = [], vector_store_ids = []\<rparr> log"

definition answer :: "(api_call \<Rightarrow> bool) \<Rightarrow> (api_call list \<Rightarrow> 'a) \<Rightarrow> api_call list \<Rightarrow> error + 'a" where
  "answer failing result log =
     (if failing (last log) then Inl (APIError ''Connection error.'') else Inr (result log))"

definition fake_client :: "(api_call \<Rightarrow> bool) \<Rightarrow> thread_message list \<Rightarrow> client" where
  "fake_client failing reply =
     \<lparr> assistants_create = answer failing (remote_assistant failing),
       assistants_update = answer failing (remote_assistant failing),
       vector_stores_retrieve = answer failing (\<lambda>log.
         case last log of VectorStoresRetrieve i \<Rightarrow> \<lparr>vector_store_id = i\<rparr>
         | _ \<Rightarrow> \<lparr>vector_store_id = []\<rparr>),
       vector_stores_create = answer failing (\<lambda>log. \<lparr>vector_store_id = ''vs_1''\<rparr>),
       file_batches_upload_and_poll = answer failing (\<lambda>log. ()),
       threads_create = answer failing (\<lambda>log. \<lparr>thread_id = ''thread_1''\<rparr>),
       runs_create_and_poll = answer failing
         (\<lambda>log. \<lparr>run_id = ''run_1'', status = ''completed''\<rparr>),
       messages_list = answer failing (\<lambda>log. reply) \<rparr>"

definition never :: "api_call \<Rightarrow> bool" where
  "never call = False"

text \<open>A session state as it is once the script has run to its end at least once.\<close>

definition ready_world :: "string \<Rightarrow> chat_message list \<Rightarrow> world" where
  "ready_world recorded ms =
     \<lparr> session =
         \<lparr> vector_store = Some (Some \<lparr>vector_store_id = ''vs_1''\<rparr>),
           current_role = Some recorded,
           assistant = Some \<lparr>assistant_id = ''asst_1'',
                             instructions = get_instructions recorded,
                             vector_store_ids = [''vs_1'']\<rparr>,
           messages = Some ms \<rparr>,
       calls = [], ui = [] \<rparr>"

text \<open>The line the sidebar shows when the persisted index cannot be fetched.\<close>

definition failed_to_load :: "error \<Rightarrow> ui_event" where
  "failed_to_load e =
     SidebarWrite
       [Str ''Failed to load persisted vector store from secrets. Creating a new one. Error:'',
        Err e]"

text \<open>
  The world once the first lines of the first run have initialised the slots and created
  the assistant, with no index yet; and secrets that hold a persisted index identifier.
\<close>

definition started_world :: world where
  "started_world =
     \<lparr> session =
         \<lparr> vector_store = Some None,
           current_role = Some ''Applicant'',
           assistant = Some \<lparr>assistant_id = ''asst_1'',
                             instructions = get_instructions ''Applicant'',
                             vector_store_ids = []\<rparr>,
           messages = Some [greeting] \<rparr>,
       calls = [AssistantsCreate ''ADU Permit Chatbot Assistant''
                  (get_instructions ''Applicant'') ''gpt-4o'' [''file_search'']],
       ui = [] \<rparr>"

definition stored_id :: "string \<Rightarrow> secrets" where
  "stored_id sid = [''VECTOR_STORE_ID'' \<mapsto> [''vs_id'' \<mapsto> sid]]"

text \<open>The index slot of the session.\<close>

definition index_slot :: "world \<Rightarrow> vector_store option option" where
  "index_slot w = vector_store (session w)"

text \<open>What a script run does once the role has been reconciled.\<close>

definition after_reconciliation ::
  "client \<Rightarrow> filesystem \<Rightarrow> secrets \<Rightarrow> string option \<Rightarrow> unit prog" where
  "after_reconciliation c fs secrets chat_input =
     bind (init_vector_store c fs secrets) (\<lambda>_.
     bind render_history (\<lambda>_. chat_input_handler c chat_input))"

section \<open>Properties of the instruction text\<close>

lemma applicant_neq_planner: "applicant_instructions \<noteq> planner_instructions"
  by (simp add: applicant_instructions_def planner_instructions_def)

text \<open>
  C10: \<open>get_instructions\<close> is total on strings.  It returns the Applicant text exactly
  when its argument is \<open>"Applicant"\<close>; on \<open>"Planner"\<close> and on every other string it
  returns the Planner text.
\<close>

theorem get_instructions_total:
  "(get_instructions r = applicant_instructions \<longleftrightarrow> r = ''Applicant'')
   \<and> (get_instructions r = planner_instructions \<longleftrightarrow> r \<noteq> ''Applicant'')
   \<and> get_instructions ''Planner'' = planner_instructions
   \<and> get_instructions ''applicant'' = planner_instructions
   \<and> get_instructions [] = planner_instructions"
  using applicant_neq_planner by (auto simp: get_instructions_def)

section \<open>Properties of the Document Set Resolver\<close>

lemma letters_loop_eq: "letters_loop names acc = acc @ letters_pdfs names"
  by (induction names arbitrary: acc) (simp_all add: letters_pdfs_def)

lemma ordinances_loop_eq: "ordinances_loop names acc = acc @ other_ordinances_pdfs names"
  by (induction names arbitrary: acc) (simp_all add: other_ordinances_pdfs_def)

lemma get_pdf_file_paths_eq:
  "get_pdf_file_paths fs =
     (case letters_names fs of
        Inl e \<Rightarrow> Inl e
      | Inr ls \<Rightarrow>
          (case ordinances_names fs of
             Inl e \<Rightarrow> Inl e
           | Inr os \<Rightarrow> Inr (statewide_part fs @ letters_pdfs ls @ other_ordinances_pdfs os)))"
  by (simp add: get_pdf_file_paths_def letters_names_def ordinances_names_def
      statewide_part_def statewide_path_def letters_loop_eq ordinances_loop_eq Let_def
      other_ordinances_pdfs_def letters_pdfs_def
      split: sum.splits)

lemma dirs_simps:
  "LETTERS_DIR = ''data/Letters''" "ORDINANCES_DIR = ''data/Ordinances''"
  "statewide_path = ''data/Ordinances/ADUHandbookUpdate.pdf''"
  by (simp_all add: LETTERS_DIR_def ORDINANCES_DIR_def statewide_path_def os_path_join_def
      statewide_file_def)

lemma letters_join_neq_statewide: "os_path_join LETTERS_DIR f \<noteq> statewide_path"
  by (cases f) (auto simp: dirs_simps os_path_join_def)

lemma ordinances_join_eq_statewide:
  "os_path_join ORDINANCES_DIR f = statewide_path \<longleftrightarrow> f = statewide_file"
  by (cases f) (auto simp: dirs_simps os_path_join_def statewide_file_def)

lemma statewide_notin_letters: "statewide_path \<notin> set (letters_pdfs ls)"
  by (auto simp: letters_pdfs_def letters_join_neq_statewide[symmetric])

lemma statewide_notin_others: "statewide_path \<notin> set (other_ordinances_pdfs os)"
  by (auto simp: other_ordinances_pdfs_def eq_commute[of statewide_path]
      ordinances_join_eq_statewide)

lemma count_list_notin: "x \<notin> set xs \<Longrightarrow> count_list xs x = 0"
  by (induction xs) auto

lemmas eval_names =
  endswith_def lower_def lower_char_def uppercase_def lowercase_def os_path_join_def
  statewide_file_def letters_pdfs_def other_ordinances_pdfs_def

lemmas eval_folders =
  folders_fs_def letters_names_def ordinances_names_def statewide_part_def dirs_simps

text \<open>
  C1 (as amended): when both folders can be read, \<open>get_pdf_file_paths\<close> returns the
  statewide ordinance file (if the ordinances folder and the file exist), then the
  \<open>.pdf\<close> files of the letters folder, then the other \<open>.pdf\<close> files of the ordinances
  folder, each group in the order the folder listing yields.  The letters come before
  the other ordinances, not after them.
\<close>

theorem get_pdf_file_paths_order:
  assumes "letters_names fs = Inr ls" and "ordinances_names fs = Inr os"
  shows "get_pdf_file_paths fs =
           Inr (statewide_part fs @ letters_pdfs ls @ other_ordinances_pdfs os)"
  using assms by (simp add: get_pdf_file_paths_eq)

theorem get_pdf_file_paths_order_witness:
  "letters_names (folders_fs (Some [''a.pdf'', ''b.PDF'', ''notes.txt''])
      (Some [''c.pdf'', ''ADUHandbookUpdate.pdf''])) = Inr [''a.pdf'', ''b.PDF'', ''notes.txt'']
   \<and> ordinances_names (folders_fs (Some [''a.pdf'', ''b.PDF'', ''notes.txt''])
      (Some [''c.pdf'', ''ADUHandbookUpdate.pdf''])) = Inr [''c.pdf'', ''ADUHandbookUpdate.pdf'']
   \<and> get_pdf_file_paths (folders_fs (Some [''a.pdf'', ''b.PDF'', ''notes.txt''])
      (Some [''c.pdf'', ''ADUHandbookUpdate.pdf''])) =
     Inr [''data/Ordinances/ADUHandbookUpdate.pdf'', ''data/Letters/a.pdf'',
          ''data/Letters/b.PDF'', ''data/Ordinances/c.pdf'']"
proof -
  let ?fs = "folders_fs (Some [''a.pdf'', ''b.PDF'', ''notes.txt''])
      (Some [''c.pdf'', ''ADUHandbookUpdate.pdf''])"
  have l: "letters_names ?fs = Inr [''a.pdf'', ''b.PDF'', ''notes.txt'']"
    by (simp add: eval_folders)
  have o: "ordinances_names ?fs = Inr [''c.pdf'', ''ADUHandbookUpdate.pdf'']"
    by (simp add: eval_folders)
  have s: "statewide_part ?fs = [''data/Ordinances/ADUHandbookUpdate.pdf'']"
    by (simp add: eval_folders eval_names)
  show ?thesis
    using get_pdf_file_paths_order [OF l o] l o s by (simp add: eval_names dirs_simps)
qed

text \<open>
  C1 as stated fails: with \<open>a.pdf\<close> in the letters folder and \<open>c.pdf\<close> in the ordinances
  folder, the letters path comes first in the result, while the order the claim gives
  puts the ordinances path first.
\<close>

theorem ordinances_before_letters_counterexample:
  "get_pdf_file_paths (folders_fs (Some [''a.pdf'']) (Some [''c.pdf''])) =
     Inr [''data/Letters/a.pdf'', ''data/Ordinances/c.pdf'']
   \<and> spec_document_set (folders_fs (Some [''a.pdf'']) (Some [''c.pdf'']))
        [''a.pdf''] [''c.pdf''] =
     [''data/Ordinances/c.pdf'', ''data/Letters/a.pdf'']
   \<and> get_pdf_file_paths (folders_fs (Some [''a.pdf'']) (Some [''c.pdf''])) \<noteq>
     Inr (spec_document_set (folders_fs (Some [''a.pdf'']) (Some [''c.pdf'']))
        [''a.pdf''] [''c.pdf''])"
  by (simp add: get_pdf_file_paths_eq spec_document_set_def eval_folders eval_names)

text \<open>
  C4: whenever the ordinances folder exists and holds the reserved statewide file (and
  both folders can be read), \<open>get_pdf_file_paths\<close> returns a list whose element at index
  0 is that file's path, whatever else the two folders hold, and the path occurs exactly
  once in the list.
\<close>

theorem statewide_file_first:
  assumes "os_path_exists fs ORDINANCES_DIR" and "os_path_exists fs statewide_path"
    and "letters_names fs = Inr ls" and "os_listdir fs ORDINANCES_DIR = Inr os"
  shows "\<exists>ps. get_pdf_file_paths fs = Inr ps \<and> ps \<noteq> [] \<and> ps ! 0 = statewide_path
           \<and> count_list ps statewide_path = 1
           \<and> length ps = 1 + length (letters_pdfs ls) + length (other_ordinances_pdfs os)"
proof -
  have "ordinances_names fs = Inr os"
    using assms by (simp add: ordinances_names_def)
  moreover have "statewide_part fs = [statewide_path]"
    using assms by (simp add: statewide_part_def)
  ultimately have "get_pdf_file_paths fs =
      Inr (statewide_path # letters_pdfs ls @ other_ordinances_pdfs os)"
    using assms(3) by (simp add: get_pdf_file_paths_eq)
  moreover have "count_list (statewide_path # letters_pdfs ls @ other_ordinances_pdfs os)
      statewide_path = 1"
    by (simp add: count_list_notin statewide_notin_letters statewide_notin_others)
  ultimately show ?thesis by simp
qed

theorem statewide_file_first_witness:
  "\<exists>ps. get_pdf_file_paths (folders_fs (Some [''a.pdf'', ''b.pdf''])
            (Some [''ADUHandbookUpdate.pdf'', ''c.pdf''])) = Inr ps
     \<and> ps \<noteq> [] \<and> ps ! 0 = ''data/Ordinances/ADUHandbookUpdate.pdf''
     \<and> count_list ps ''data/Ordinances/ADUHandbookUpdate.pdf'' = 1
     \<and> length ps = 4"
proof -
  let ?fs = "folders_fs (Some [''a.pdf'', ''b.pdf'']) (Some [''ADUHandbookUpdate.pdf'', ''c.pdf''])"
  have 1: "os_path_exists ?fs ORDINANCES_DIR" by (simp add: eval_folders)
  have 2: "os_path_exists ?fs statewide_path" by (simp add: eval_folders eval_names)
  have 3: "letters_names ?fs = Inr [''a.pdf'', ''b.pdf'']" by (simp add: eval_folders)
  have 4: "os_listdir ?fs ORDINANCES_DIR = Inr [''ADUHandbookUpdate.pdf'', ''c.pdf'']"
    by (simp add: eval_folders)
  have 5: "length (letters_pdfs [''a.pdf'', ''b.pdf'']) = 2" by (simp add: eval_names)
  have 6: "length (other_ordinances_pdfs [''ADUHandbookUpdate.pdf'', ''c.pdf'']) = 1"
    by (simp add: eval_names)
  show ?thesis
    using statewide_file_first [OF 1 2 3 4] by (auto simp: 5 6 dirs_simps)
qed

section \<open>Reasoning about programs\<close>

lemma bind_assoc: "bind (bind m f) g = bind m (\<lambda>x. bind (f x) g)"
  by (rule ext) (simp add: bind_def split: prod.splits sum.splits)

lemma snd_bind:
  "snd (bind m f w) = (case m w of (Inl e, w') \<Rightarrow> w' | (Inr x, w') \<Rightarrow> snd (f x w'))"
  by (simp add: bind_def split: prod.splits sum.splits)

lemma unchanged_ret: "unchanged f (ret x)"
  and unchanged_raise: "unchanged f (raise e)"
  and unchanged_lift: "unchanged f (lift r)"
  and unchanged_in_session: "unchanged f (in_session slot)"
  and unchanged_get_slot: "unchanged f (get_slot slot' name)"
  by (simp_all add: unchanged_def ret_def raise_def lift_def in_session_def get_slot_def
      split: option.splits)

lemma unchanged_bind:
  "unchanged f m \<Longrightarrow> (\<And>x. unchanged f (g x)) \<Longrightarrow> unchanged f (bind m g)"
  by (auto simp: unchanged_def snd_bind split: prod.splits sum.splits) (metis snd_conv)+

lemma unchanged_try_except:
  "unchanged f m \<Longrightarrow> (\<And>e. unchanged f (h e)) \<Longrightarrow> unchanged f (try_except m h)"
  by (auto simp: unchanged_def try_except_def split: prod.splits sum.splits) (metis snd_conv)+

lemma unchanged_if:
  "unchanged f a \<Longrightarrow> unchanged f b \<Longrightarrow> unchanged f (if c then a else b)"
  by simp

lemma unchanged_case_option:
  "unchanged f a \<Longrightarrow> (\<And>x. unchanged f (b x)) \<Longrightarrow>
   unchanged f (case opt of None \<Rightarrow> a | Some x \<Rightarrow> b x)"
  by (cases opt) simp_all

lemma unchanged_case_list:
  "unchanged f a \<Longrightarrow> (\<And>x xs. unchanged f (b x xs)) \<Longrightarrow>
   unchanged f (case l of [] \<Rightarrow> a | x # xs \<Rightarrow> b x xs)"
  by (cases l) simp_all

lemma unchanged_case_block:
  "(\<And>x. unchanged f (a x)) \<Longrightarrow> (\<And>x. unchanged f (b x)) \<Longrightarrow>
   unchanged f (case blk of TextContentBlock x \<Rightarrow> a x | ImageFileContentBlock x \<Rightarrow> b x)"
  by (cases blk) simp_all

lemmas unchanged_intros =
  unchanged_bind unchanged_try_except unchanged_if unchanged_case_option unchanged_case_list
  unchanged_case_block unchanged_ret unchanged_raise unchanged_lift unchanged_in_session
  unchanged_get_slot

lemma unchangedD: "unchanged f m \<Longrightarrow> f (snd (m w)) = f w"
  by (simp add: unchanged_def)

lemma session_api: "unchanged session (api endpoint call)"
  by (simp add: unchanged_def api_def Let_def)

lemma session_st_write: "unchanged session (st_write evs)"
  by (simp add: unchanged_def st_write_def)

lemma session_generate_response: "unchanged session (generate_response c msgs)"
  unfolding generate_response_def
  by (intro unchanged_intros session_api)

section \<open>Properties of strip\<close>

lemma strip_decomposition:
  "\<exists>pre post. s = pre @ strip s @ post \<and> list_all isspace pre \<and> list_all isspace post"
proof -
  let ?t = "dropWhile isspace s"
  have "s = takeWhile isspace s @ ?t" by simp
  moreover have "rev ?t = takeWhile isspace (rev ?t) @ dropWhile isspace (rev ?t)" by simp
  then have "?t = strip s @ rev (takeWhile isspace (rev ?t))"
    unfolding strip_def by (metis rev_append rev_rev_ident)
  moreover have "list_all isspace (takeWhile isspace s)"
    by (simp add: list_all_iff) (meson set_takeWhileD)
  moreover have "list_all isspace (rev (takeWhile isspace (rev ?t)))"
    by (simp add: list_all_iff) (meson set_takeWhileD)
  ultimately show ?thesis by (metis append_assoc)
qed

lemma last_dropWhile_nonempty: "dropWhile P xs \<noteq> [] \<Longrightarrow> last (dropWhile P xs) = last xs"
  by (induction xs) (auto split: if_splits)

lemma strip_ends:
  assumes "strip s \<noteq> []"
  shows "\<not> isspace (hd (strip s))" and "\<not> isspace (last (strip s))"
proof -
  let ?t = "dropWhile isspace s"
  let ?u = "dropWhile isspace (rev ?t)"
  from assms have u: "?u \<noteq> []" by (simp add: strip_def)
  then have t: "?t \<noteq> []" by (metis dropWhile.simps(1) rev_is_Nil_conv)
  have "hd (strip s) = last ?u" using u by (simp add: strip_def hd_rev)
  also have "\<dots> = last (rev ?t)" using u by (rule last_dropWhile_nonempty)
  also have "\<dots> = hd ?t" using t by (simp add: last_rev)
  finally show "\<not> isspace (hd (strip s))" using t hd_dropWhile by metis
  have "last (strip s) = hd ?u" using u by (simp add: strip_def last_rev)
  then show "\<not> isspace (last (strip s))" using u hd_dropWhile by metis
qed

section \<open>Properties of the reply cycle\<close>

lemmas eval_fake = fake_client_def answer_def never_def ready_world_def


lemma generate_response_result:
  assumes "assistant (session w) = Some a"
    and "threads_create c (calls w @ [ThreadsCreate msgs]) = Inr th"
    and "runs_create_and_poll c (calls w @ [ThreadsCreate msgs, run_request th a]) = Inr rn"
    and "messages_list c (calls w @ [ThreadsCreate msgs, run_request th a, list_request th rn])
           = Inr ml"
  shows "fst (generate_response c msgs w) =
     (case ml of
        [] \<Rightarrow> Inr ''No response received from the assistant.''
      | m # _ \<Rightarrow>
          (case message_content m of
             [] \<Rightarrow> Inl (IndexError ''list index out of range'')
           | TextContentBlock v # _ \<Rightarrow> Inr (strip v)
           | ImageFileContentBlock _ # _ \<Rightarrow>
               Inl (AttributeError ''ImageFileContentBlock object has no attribute text'')))"
  using assms
  by (simp add: generate_response_def bind_def get_slot_def api_def Let_def ret_def raise_def
      run_request_def list_request_def split: list.splits content_block.splits)

text \<open>
  C2: when thread creation, the run and the message listing all return, the run having
  reached a terminal state, \<open>generate_response\<close> returns the literal fallback string (a
  value, not an exception) if the run produced no message, and otherwise the text of the
  first content block of the first message with the whitespace at both ends removed:
  what is removed is whitespace only, and what remains neither starts nor ends with
  whitespace.
\<close>

theorem generate_response_success:
  assumes "assistant (session w) = Some a"
    and "threads_create c (calls w @ [ThreadsCreate msgs]) = Inr th"
    and "runs_create_and_poll c (calls w @ [ThreadsCreate msgs, run_request th a]) = Inr rn"
    and "messages_list c (calls w @ [ThreadsCreate msgs, run_request th a, list_request th rn])
           = Inr ml"
  shows "(ml = [] \<longrightarrow>
            fst (generate_response c msgs w) = Inr ''No response received from the assistant.'')
    \<and> (\<forall>m rest v blocks.
          ml = m # rest \<and> message_content m = TextContentBlock v # blocks \<longrightarrow>
            fst (generate_response c msgs w) = Inr (strip v)
            \<and> (\<exists>pre post. v = pre @ strip v @ post
                  \<and> list_all isspace pre \<and> list_all isspace post)
            \<and> (strip v \<noteq> [] \<longrightarrow>
                  \<not> isspace (hd (strip v)) \<and> \<not> isspace (last (strip v))))"
  using generate_response_result [OF assms] strip_decomposition strip_ends
  by (auto split: list.splits)

theorem generate_response_success_witness:
  "fst (generate_response
          (fake_client never [\<lparr>message_content = [TextContentBlock ''  Hello there.  '']\<rparr>])
          [greeting, user_turn ''hi''] (ready_world ''Applicant'' [greeting]))
     = Inr ''Hello there.''
   \<and> fst (generate_response (fake_client never [])
          [greeting, user_turn ''hi''] (ready_world ''Applicant'' [greeting]))
     = Inr ''No response received from the assistant.''"
proof -
  let ?w = "ready_world ''Applicant'' [greeting]"
  let ?msgs = "[greeting, user_turn ''hi'']"
  let ?a = "\<lparr>assistant_id = ''asst_1'', instructions = get_instructions ''Applicant'',
             vector_store_ids = [''vs_1'']\<rparr>"
  let ?th = "\<lparr>thread_id = ''thread_1''\<rparr>"
  let ?rn = "\<lparr>run_id = ''run_1'', status = ''completed''\<rparr>"
  let ?m = "\<lparr>message_content = [TextContentBlock ''  Hello there.  '']\<rparr>"
  have a: "assistant (session ?w) = Some ?a" by (simp add: ready_world_def)
  have t: "threads_create (fake_client never reply) (calls ?w @ [ThreadsCreate ?msgs]) = Inr ?th"
    for reply by (simp add: eval_fake)
  have r: "runs_create_and_poll (fake_client never reply)
             (calls ?w @ [ThreadsCreate ?msgs, run_request ?th ?a]) = Inr ?rn"
    for reply by (simp add: eval_fake)
  have m: "messages_list (fake_client never reply)
             (calls ?w @ [ThreadsCreate ?msgs, run_request ?th ?a, list_request ?th ?rn])
           = Inr reply"
    for reply by (simp add: eval_fake)
  have s: "strip ''  Hello there.  '' = ''Hello there.''"
    by (simp add: strip_def isspace_def whitespace_def)
  show ?thesis
    using generate_response_success [OF a t r m, of "[?m]"]
      generate_response_success [OF a t r m, of "[]"] s
    by simp
qed

lemma reply_cycle_raises_propagates:
  assumes "assistant (session w) = Some a"
    and "reply_cycle_raises c (calls w) msgs a e"
  shows "fst (generate_response c msgs w) = Inl e"
  using assms
  by (auto simp: reply_cycle_raises_def generate_response_def bind_def get_slot_def api_def
      Let_def run_request_def list_request_def split: sum.splits)

lemma handler_on_error:
  assumes "messages (session w) = Some ms" and "prompt \<noteq> []"
    and "fst (generate_response c (ms @ [user_turn prompt])
           (w\<lparr>session := (session w)\<lparr>messages := Some (ms @ [user_turn prompt])\<rparr>,
              ui := ui w @ [ChatMessageWrite ''user'' prompt]\<rparr>)) = Inl e"
  shows "fst (chat_input_handler c (Some prompt) w) = Inr ()"
    and "messages (session (snd (chat_input_handler c (Some prompt) w))) =
           Some (ms @ [user_turn prompt, error_turn e])"
    and "\<exists>evs. ui (snd (chat_input_handler c (Some prompt) w)) =
           evs @ [ChatMessageWrite ''assistant'' (''Error: '' @ error_str e)]"
proof -
  let ?w1 = "w\<lparr>session := (session w)\<lparr>messages := Some (ms @ [user_turn prompt])\<rparr>,
              ui := ui w @ [ChatMessageWrite ''user'' prompt]\<rparr>"
  obtain w2 where g: "generate_response c (ms @ [user_turn prompt]) ?w1 = (Inl e, w2)"
    using assms(3) by (metis fst_conv surj_pair)
  have "session w2 = session ?w1"
    using unchangedD [OF session_generate_response, of c "ms @ [user_turn prompt]" ?w1] g
    by simp
  then have m2: "messages (session w2) = Some (ms @ [user_turn prompt])" by simp
  have h: "chat_input_handler c (Some prompt) w =
      (Inr (), w2\<lparr>session := (session w2)\<lparr>messages :=
                      Some (ms @ [user_turn prompt, error_turn e])\<rparr>,
                  ui := ui w2 @ [ChatMessageWrite ''assistant'' (''Error: '' @ error_str e)]\<rparr>)"
    using assms(1,2) g m2
    by (simp add: chat_input_handler_def bind_def try_except_def append_message_def
        get_slot_def set_messages_def st_write_def user_turn_def error_turn_def)
  show "fst (chat_input_handler c (Some prompt) w) = Inr ()" by (simp add: h)
  show "messages (session (snd (chat_input_handler c (Some prompt) w))) =
           Some (ms @ [user_turn prompt, error_turn e])" by (simp add: h)
  show "\<exists>evs. ui (snd (chat_input_handler c (Some prompt) w)) =
           evs @ [ChatMessageWrite ''assistant'' (''Error: '' @ error_str e)]" by (simp add: h)
qed

text \<open>
  C3: an error raised by thread creation, by run submission and polling or by message
  retrieval leaves \<open>generate_response\<close> as it was raised; the chat input handler
  catches it, ends normally, and the Transcript is the one before the interaction with
  the user turn and an assistant turn \<open>"Error: "\<close> followed by the error's description
  appended, so every earlier turn is kept.
\<close>

theorem reply_error_becomes_error_turn:
  assumes "messages (session w) = Some ms" and "assistant (session w) = Some a"
    and "prompt \<noteq> []"
    and "reply_cycle_raises c (calls w) (ms @ [user_turn prompt]) a e"
  shows "fst (generate_response c (ms @ [user_turn prompt])
           (w\<lparr>session := (session w)\<lparr>messages := Some (ms @ [user_turn prompt])\<rparr>,
              ui := ui w @ [ChatMessageWrite ''user'' prompt]\<rparr>)) = Inl e
    \<and> fst (chat_input_handler c (Some prompt) w) = Inr ()
    \<and> messages (session (snd (chat_input_handler c (Some prompt) w))) =
         Some (ms @ [user_turn prompt,
                     \<lparr>role = ''assistant'', content = ''Error: '' @ error_str e\<rparr>])"
proof -
  let ?w1 = "w\<lparr>session := (session w)\<lparr>messages := Some (ms @ [user_turn prompt])\<rparr>,
              ui := ui w @ [ChatMessageWrite ''user'' prompt]\<rparr>"
  have "fst (generate_response c (ms @ [user_turn prompt]) ?w1) = Inl e"
    using assms(2,4) by (intro reply_cycle_raises_propagates [where a = a]) simp_all
  then show ?thesis
    using handler_on_error [OF assms(1,3)] by (simp add: error_turn_def)
qed

theorem reply_error_becomes_error_turn_witness:
  "reply_cycle_raises (fake_client is_thread_create [])
      (calls (ready_world ''Applicant'' [greeting])) ([greeting] @ [user_turn ''hi''])
      \<lparr>assistant_id = ''asst_1'', instructions = get_instructions ''Applicant'',
        vector_store_ids = [''vs_1'']\<rparr>
      (APIError ''Connection error.'')
   \<and> fst (chat_input_handler (fake_client is_thread_create []) (Some ''hi'')
           (ready_world ''Applicant'' [greeting])) = Inr ()
   \<and> messages (session (snd (chat_input_handler (fake_client is_thread_create []) (Some ''hi'')
           (ready_world ''Applicant'' [greeting])))) =
       Some [greeting, \<lparr>role = ''user'', content = ''hi''\<rparr>,
             \<lparr>role = ''assistant'', content = ''Error: Connection error.''\<rparr>]"
proof -
  let ?w = "ready_world ''Applicant'' [greeting]"
  let ?c = "fake_client is_thread_create []"
  let ?a = "\<lparr>assistant_id = ''asst_1'', instructions = get_instructions ''Applicant'',
             vector_store_ids = [''vs_1'']\<rparr>"
  have m: "messages (session ?w) = Some [greeting]" by (simp add: ready_world_def)
  have a: "assistant (session ?w) = Some ?a" by (simp add: ready_world_def)
  have p: "''hi'' \<noteq> []" by simp
  have r: "reply_cycle_raises ?c (calls ?w) ([greeting] @ [user_turn ''hi'']) ?a
             (APIError ''Connection error.'')"
    by (simp add: reply_cycle_raises_def eval_fake)
  show ?thesis
    using reply_error_becomes_error_turn [OF m a p r] r by (simp add: user_turn_def)
qed

section \<open>The Transcript\<close>

lemma transcript_api: "unchanged transcript (api endpoint call)"
  by (simp add: unchanged_def api_def Let_def transcript_def)

lemma transcript_st_write: "unchanged transcript (st_write evs)"
  by (simp add: unchanged_def st_write_def transcript_def)

lemma transcript_setters:
  "unchanged transcript (set_vector_store v)"
  "unchanged transcript (set_current_role r)"
  "unchanged transcript (set_assistant a)"
  by (simp_all add: unchanged_def transcript_def set_vector_store_def set_current_role_def
      set_assistant_def)

lemmas transcript_intros =
  unchanged_intros transcript_api transcript_st_write transcript_setters

lemma transcript_reconcile_role: "unchanged transcript (reconcile_role c r)"
  unfolding reconcile_role_def by (intro transcript_intros)

lemma transcript_load_persisted: "unchanged transcript (load_persisted c secrets)"
  unfolding load_persisted_def by (intro transcript_intros)

lemma transcript_create_vector_store: "unchanged transcript (create_vector_store c fs)"
  unfolding create_vector_store_def by (intro transcript_intros)

lemma transcript_init_vector_store: "unchanged transcript (init_vector_store c fs secrets)"
  unfolding init_vector_store_def
  by (intro transcript_intros transcript_load_persisted transcript_create_vector_store)

lemma transcript_render_history: "unchanged transcript render_history"
  unfolding render_history_def by (intro transcript_intros)

lemma transcript_generate_response: "unchanged transcript (generate_response c msgs)"
  unfolding generate_response_def by (intro transcript_intros)

lemma transcript_init_session_state:
  "transcript (snd (init_session_state c r w)) =
     (case transcript w of
        Some ms \<Rightarrow> Some ms
      | None \<Rightarrow> (if fst (init_session_state c r w) = Inr () then Some [greeting] else None))"
  by (simp add: init_session_state_def bind_def in_session_def set_vector_store_def
      set_current_role_def set_assistant_def set_messages_def ret_def api_def Let_def
      transcript_def split: option.splits sum.splits)

lemma transcript_chat_input_handler:
  "\<exists>extra. transcript (snd (chat_input_handler c chat_input w)) =
      map_option (\<lambda>ms. ms @ extra) (transcript w)"
proof (cases "transcript w")
  case None
  then have "transcript (snd (chat_input_handler c chat_input w)) = None"
    by (simp add: chat_input_handler_def bind_def append_message_def get_slot_def ret_def
        transcript_def split: option.splits)
  with None show ?thesis by simp
next
  case (Some ms)
  show ?thesis
  proof (cases "chat_input = None \<or> chat_input = Some []")
    case True
    then have "transcript (snd (chat_input_handler c chat_input w)) = Some (ms @ [])"
      using Some by (auto simp: chat_input_handler_def ret_def)
    with Some show ?thesis by (metis option.simps(9))
  next
    case False
    then obtain prompt where p: "chat_input = Some prompt" "prompt \<noteq> []" by auto
    let ?w1 = "w\<lparr>session := (session w)\<lparr>messages := Some (ms @ [user_turn prompt])\<rparr>,
                 ui := ui w @ [ChatMessageWrite ''user'' prompt]\<rparr>"
    obtain res w2 where g: "generate_response c (ms @ [user_turn prompt]) ?w1 = (res, w2)"
      by (metis surj_pair)
    have "transcript w2 = transcript ?w1"
      using unchangedD [OF transcript_generate_response, of c "ms @ [user_turn prompt]" ?w1] g
      by simp
    then have m2: "messages (session w2) = Some (ms @ [user_turn prompt])"
      by (simp add: transcript_def)
    have "\<exists>t. transcript (snd (chat_input_handler c chat_input w)) =
        Some (ms @ [user_turn prompt, t])"
      using Some p g m2
      by (cases res)
        (simp_all add: chat_input_handler_def bind_def try_except_def append_message_def
          get_slot_def set_messages_def st_write_def user_turn_def transcript_def)
    with Some show ?thesis by (metis option.simps(9))
  qed
qed

lemma transcript_prepare:
  "transcript (snd (prepare c fs secrets r w)) = transcript w
   \<or> (transcript w = None \<and> transcript (snd (prepare c fs secrets r w)) = Some [greeting])"
proof -
  let ?rest = "bind (reconcile_role c r) (\<lambda>_. bind (init_vector_store c fs secrets)
      (\<lambda>_. render_history))"
  have rest: "unchanged transcript ?rest"
    by (intro unchanged_bind transcript_reconcile_role transcript_init_vector_store
        transcript_render_history)
  obtain res w1 where i: "init_session_state c r w = (res, w1)" by (metis surj_pair)
  have t1: "transcript w1 = transcript w \<or> (transcript w = None \<and> transcript w1 = Some [greeting])"
    using transcript_init_session_state [of c r w] i by (auto split: option.splits if_splits)
  have "transcript (snd (prepare c fs secrets r w)) = transcript w1"
    using i unchangedD [OF rest, of w1]
    by (cases res) (simp_all add: prepare_def snd_bind)
  with t1 show ?thesis by auto
qed

lemma transcript_prepare_returns:
  assumes "fst (prepare c fs secrets r w) = Inr ()"
  shows "transcript (snd (prepare c fs secrets r w)) =
           Some (case transcript w of None \<Rightarrow> [greeting] | Some ms \<Rightarrow> ms)"
proof -
  let ?rest = "bind (reconcile_role c r) (\<lambda>_. bind (init_vector_store c fs secrets)
      (\<lambda>_. render_history))"
  have rest: "unchanged transcript ?rest"
    by (intro unchanged_bind transcript_reconcile_role transcript_init_vector_store
        transcript_render_history)
  obtain res w1 where i: "init_session_state c r w = (res, w1)" by (metis surj_pair)
  from assms i have res: "res = Inr ()"
    by (cases res) (simp_all add: prepare_def bind_def)
  have t1: "transcript w1 = Some (case transcript w of None \<Rightarrow> [greeting] | Some ms \<Rightarrow> ms)"
    using transcript_init_session_state [of c r w] i res by (auto split: option.splits)
  have "transcript (snd (prepare c fs secrets r w)) = transcript w1"
    using i res unchangedD [OF rest, of w1] by (simp add: prepare_def snd_bind)
  with t1 show ?thesis by simp
qed

lemma transcript_script:
  "(\<exists>extra. transcript (snd (script c fs secrets r chat_input w)) =
      Some ((case transcript w of None \<Rightarrow> [greeting] | Some ms \<Rightarrow> ms) @ extra))
   \<or> (transcript w = None \<and> transcript (snd (script c fs secrets r chat_input w)) = None)"
proof -
  obtain res w1 where p: "prepare c fs secrets r w = (res, w1)" by (metis surj_pair)
  show ?thesis
  proof (cases res)
    case (Inl e)
    then have s: "snd (script c fs secrets r chat_input w) = w1"
      using p by (simp add: script_def snd_bind)
    have "transcript w1 = transcript w
       \<or> (transcript w = None \<and> transcript w1 = Some [greeting])"
      using transcript_prepare [of c fs secrets r w] p by simp
    then show ?thesis
      using s by (cases "transcript w") auto
  next
    case (Inr u)
    then have s: "snd (script c fs secrets r chat_input w) = snd (chat_input_handler c chat_input w1)"
      using p by (simp add: script_def snd_bind)
    have t1: "transcript w1 = Some (case transcript w of None \<Rightarrow> [greeting] | Some ms \<Rightarrow> ms)"
      using transcript_prepare_returns [of c fs secrets r w] p Inr by simp
    obtain extra where "transcript (snd (chat_input_handler c chat_input w1)) =
        map_option (\<lambda>ms. ms @ extra) (transcript w1)"
      using transcript_chat_input_handler by blast
    then show ?thesis
      using s t1 by auto
  qed
qed

lemma transcript_script_extends:
  assumes "transcript w = Some ms"
  shows "\<exists>extra. transcript (snd (script c fs secrets r chat_input w)) = Some (ms @ extra)"
  using transcript_script [of c fs secrets r chat_input w] assms by simp

lemma transcript_run_session_extends:
  "transcript w = Some ms \<Longrightarrow>
   \<exists>extra. transcript (run_session c fs secrets inputs w) = Some (ms @ extra)"
proof (induction inputs arbitrary: w ms)
  case Nil
  then show ?case by simp
next
  case (Cons i inputs)
  obtain r chat_input where i: "i = (r, chat_input)" by (cases i)
  obtain e1 where e1: "transcript (snd (script c fs secrets r chat_input w)) = Some (ms @ e1)"
    using transcript_script_extends [OF Cons.prems] by blast
  from Cons.IH [OF e1] obtain e2 where
    "transcript (run_session c fs secrets inputs (snd (script c fs secrets r chat_input w))) =
       Some ((ms @ e1) @ e2)" by blast
  then show ?case using i by (auto intro: exI [of _ "e1 @ e2"])
qed

lemma transcript_run_session_seeded:
  "transcript w = None \<Longrightarrow>
   transcript (run_session c fs secrets inputs w) = None
   \<or> (\<exists>rest. transcript (run_session c fs secrets inputs w) = Some (greeting # rest))"
proof (induction inputs arbitrary: w)
  case Nil
  then show ?case by simp
next
  case (Cons i inputs)
  obtain r chat_input where i: "i = (r, chat_input)" by (cases i)
  let ?w' = "snd (script c fs secrets r chat_input w)"
  from transcript_script [of c fs secrets r chat_input w] Cons.prems
  consider "transcript ?w' = None" | extra where "transcript ?w' = Some (greeting # extra)"
    by auto
  then show ?case
  proof cases
    case 1
    then show ?thesis using Cons.IH [of ?w'] i by simp
  next
    case 2
    from transcript_run_session_extends [OF 2, of c fs secrets inputs]
    show ?thesis using i by auto
  qed
qed

lemmas eval_prog =
  script_def prepare_def init_session_state_def reconcile_role_def init_vector_store_def
  load_persisted_def create_vector_store_def render_history_def chat_input_handler_def
  generate_response_def append_message_def
  bind_def try_except_def ret_def raise_def lift_def api_def st_write_def in_session_def
  get_slot_def set_vector_store_def set_current_role_def set_assistant_def set_messages_def
  Let_def new_session_def transcript_def

lemmas eval_remote =
  fake_client_def answer_def never_def ready_world_def remote_assistant_def apply_call_def

lemma no_folders: "get_pdf_file_paths (folders_fs None None) = Inr []"
  by (simp add: get_pdf_file_paths_def folders_fs_def)

text \<open>
  C9: the Transcript does not exist until the script seeds it, with exactly one
  assistant greeting turn, and the chat input is only read once it is seeded; in every
  state a session can reach from its start it is absent or starts with the greeting, so
  it is never empty.  Every script run and every sequence of runs, from any state and
  with any answers of the remote service, failures included, leaves the turns that were
  there in place and in order, and at most appends to them.
\<close>

theorem transcript_append_only:
  "(transcript (run_session c fs secrets inputs new_session) = None
      \<or> (\<exists>rest. transcript (run_session c fs secrets inputs new_session) =
                  Some (greeting # rest)))
   \<and> (fst (prepare c fs secrets r new_session) = Inr () \<longrightarrow>
        transcript (snd (prepare c fs secrets r new_session)) = Some [greeting])
   \<and> (fst (prepare c fs secrets r w) = Inr () \<longrightarrow>
        transcript (snd (prepare c fs secrets r w)) \<noteq> None)
   \<and> (transcript w = Some ms \<longrightarrow>
        (\<exists>extra. transcript (snd (script c fs secrets r chat_input w)) = Some (ms @ extra)))
   \<and> (transcript w = Some ms \<longrightarrow>
        (\<exists>extra. transcript (run_session c fs secrets inputs w) = Some (ms @ extra)))"
proof -
  have n: "transcript new_session = None"
    by (simp add: transcript_def new_session_def)
  have 1: "transcript (run_session c fs secrets inputs new_session) = None
      \<or> (\<exists>rest. transcript (run_session c fs secrets inputs new_session) =
                  Some (greeting # rest))"
    using transcript_run_session_seeded [OF n] .
  have 2: "fst (prepare c fs secrets r new_session) = Inr () \<longrightarrow>
        transcript (snd (prepare c fs secrets r new_session)) = Some [greeting]"
    using transcript_prepare_returns [of c fs secrets r new_session] n by simp
  have 3: "fst (prepare c fs secrets r w) = Inr () \<longrightarrow>
        transcript (snd (prepare c fs secrets r w)) \<noteq> None"
    using transcript_prepare_returns [of c fs secrets r w] by simp
  have 4: "transcript w = Some ms \<longrightarrow>
        (\<exists>extra. transcript (snd (script c fs secrets r chat_input w)) = Some (ms @ extra))"
    using transcript_script_extends by blast
  have 5: "transcript w = Some ms \<longrightarrow>
        (\<exists>extra. transcript (run_session c fs secrets inputs w) = Some (ms @ extra))"
    using transcript_run_session_extends by blast
  from 1 2 3 4 5 show ?thesis by blast
qed

theorem transcript_append_only_witness:
  "fst (prepare (fake_client is_thread_create []) (folders_fs None None) Map.empty
          ''Applicant'' new_session) = Inr ()
   \<and> transcript (snd (prepare (fake_client is_thread_create []) (folders_fs None None)
          Map.empty ''Applicant'' new_session)) = Some [greeting]
   \<and> fst (prepare (fake_client is_thread_create []) (folders_fs None None) Map.empty
          ''Applicant'' (ready_world ''Applicant'' [greeting])) = Inr ()
   \<and> transcript (ready_world ''Applicant'' [greeting]) = Some [greeting]
   \<and> (\<exists>extra. transcript (snd (script (fake_client is_thread_create [])
          (folders_fs None None) Map.empty ''Applicant'' (Some ''hi'')
          (ready_world ''Applicant'' [greeting]))) = Some ([greeting] @ extra))
   \<and> (\<exists>extra. transcript (run_session (fake_client is_thread_create [])
          (folders_fs None None) Map.empty [(''Applicant'', Some ''hi'')]
          (ready_world ''Applicant'' [greeting])) = Some ([greeting] @ extra))"
proof -
  let ?c = "fake_client is_thread_create []"
  let ?fs = "folders_fs None None"
  let ?w = "ready_world ''Applicant'' [greeting]"
  have a: "fst (prepare ?c ?fs Map.empty ''Applicant'' new_session) = Inr ()"
    by (simp add: eval_prog eval_remote no_folders)
  have b: "fst (prepare ?c ?fs Map.empty ''Applicant'' ?w) = Inr ()"
    by (simp add: eval_prog eval_remote)
  have c: "transcript ?w = Some [greeting]"
    by (simp add: transcript_def ready_world_def)
  show ?thesis
    using transcript_append_only [of ?c ?fs Map.empty "[(''Applicant'', Some ''hi'')]"
        "''Applicant''" ?w "[greeting]" "Some ''hi''"] a b c
    by simp
qed

section \<open>Properties of the Remote Index Manager\<close>

lemma reuse_persisted:
  assumes "vector_store (session w) = Some None" and "assistant (session w) = Some a"
    and "secrets ''VECTOR_STORE_ID'' = Some entry" and "entry ''vs_id'' = Some sid"
    and "vector_stores_retrieve c (calls w @ [VectorStoresRetrieve sid]) = Inr vs"
  shows "calls (snd (init_vector_store c fs secrets w)) =
           calls w @ [VectorStoresRetrieve sid,
                      AssistantsUpdateToolResources (assistant_id a) [vector_store_id vs]]"
    and "vector_store (session (snd (init_vector_store c fs secrets w))) = Some (Some vs)"
  using assms
  by (simp_all add: init_vector_store_def load_persisted_def bind_def try_except_def
      get_slot_def api_def st_write_def ret_def set_vector_store_def set_assistant_def Let_def
      split: sum.splits)

lemma load_persisted_fails:
  assumes "secrets ''VECTOR_STORE_ID'' = Some entry" and "entry ''vs_id'' = Some sid"
    and "vector_stores_retrieve c (calls w @ [VectorStoresRetrieve sid]) = Inl e"
  shows "load_persisted c secrets w =
      (Inr None,
       w\<lparr>calls := calls w @ [VectorStoresRetrieve sid],
         ui := ui w @ [SidebarWrite
           [Str ''Failed to load persisted vector store from secrets. Creating a new one. Error:'',
            Err e]]\<rparr>)"
  using assms
  by (simp add: load_persisted_def bind_def try_except_def api_def st_write_def ret_def Let_def)

lemma create_vector_store_calls:
  "\<exists>more. calls (snd (create_vector_store c fs w)) = calls w @ VectorStoresCreate VS_NAME # more
     \<and> filter is_index_create more = []
     \<and> filter is_upload more =
        (case vector_stores_create c (calls w @ [VectorStoresCreate VS_NAME]) of
           Inl _ \<Rightarrow> []
         | Inr vs \<Rightarrow>
             (case get_pdf_file_paths fs of
                Inl _ \<Rightarrow> []
              | Inr ps \<Rightarrow>
                  if ps = [] then []
                  else (case open_all fs ps of
                          Inl _ \<Rightarrow> []
                        | Inr files \<Rightarrow> [FileBatchesUploadAndPoll (vector_store_id vs) files])))
     \<and> (\<forall>x \<in> set more. is_upload x)"
  by (simp add: create_vector_store_def bind_def lift_def api_def st_write_def ret_def Let_def
      split: sum.splits)

lemma init_after_failed_fetch:
  assumes "vector_store (session w) = Some None"
    and "secrets ''VECTOR_STORE_ID'' = Some entry" and "entry ''vs_id'' = Some sid"
    and "vector_stores_retrieve c (calls w @ [VectorStoresRetrieve sid]) = Inl e"
  shows "\<exists>more evs. calls (snd (init_vector_store c fs secrets w)) =
             calls w @ [VectorStoresRetrieve sid, VectorStoresCreate VS_NAME] @ more
     \<and> ui (snd (init_vector_store c fs secrets w)) = ui w @ failed_to_load e # evs
     \<and> filter is_index_create more = []
     \<and> filter is_upload more =
        (case vector_stores_create c
                (calls w @ [VectorStoresRetrieve sid, VectorStoresCreate VS_NAME]) of
           Inl _ \<Rightarrow> []
         | Inr vs \<Rightarrow>
             (case get_pdf_file_paths fs of
                Inl _ \<Rightarrow> []
              | Inr ps \<Rightarrow>
                  if ps = [] then []
                  else (case open_all fs ps of
                          Inl _ \<Rightarrow> []
                        | Inr files \<Rightarrow> [FileBatchesUploadAndPoll (vector_store_id vs) files])))"
  using assms
  by (simp add: init_vector_store_def load_persisted_def create_vector_store_def bind_def
      try_except_def get_slot_def api_def st_write_def ret_def raise_def lift_def
      set_vector_store_def set_assistant_def Let_def failed_to_load_def
      split: sum.splits option.splits)

lemma started_world_reached:
  "init_session_state (fake_client never []) ''Applicant'' new_session = (Inr (), started_world)"
  by (simp add: eval_prog eval_remote started_world_def)

text \<open>
  C6: when the secrets hold a persisted index identifier and fetching it returns, the
  Remote Index Manager keeps the fetched index and sends no index-creation and no upload
  request: it sends the fetch and then the attachment to the assistant.  When the fetch
  raises, the error is written to the sidebar and the run goes on: exactly one
  index-creation request follows and at most one upload; when the creation returns, the
  resolved Document Set is non-empty and its files open, exactly one upload request is
  sent, for the new index with those files.
\<close>

theorem persisted_index_reuse_and_fallback:
  "(vector_store (session w) = Some None \<and> assistant (session w) = Some a
      \<and> secrets ''VECTOR_STORE_ID'' = Some entry \<and> entry ''vs_id'' = Some sid
      \<and> vector_stores_retrieve c (calls w @ [VectorStoresRetrieve sid]) = Inr vs \<longrightarrow>
        vector_store (session (snd (init_vector_store c fs secrets w))) = Some (Some vs)
      \<and> calls (snd (init_vector_store c fs secrets w)) =
          calls w @ [VectorStoresRetrieve sid,
                     AssistantsUpdateToolResources (assistant_id a) [vector_store_id vs]]
      \<and> count_calls is_index_create (snd (init_vector_store c fs secrets w)) =
          count_calls is_index_create w
      \<and> count_calls is_upload (snd (init_vector_store c fs secrets w)) =
          count_calls is_upload w)
   \<and> (vector_store (session w') = Some None
      \<and> secrets' ''VECTOR_STORE_ID'' = Some entry' \<and> entry' ''vs_id'' = Some sid'
      \<and> vector_stores_retrieve c' (calls w' @ [VectorStoresRetrieve sid']) = Inl e \<longrightarrow>
        failed_to_load e \<in> set (ui (snd (init_vector_store c' fs' secrets' w')))
      \<and> (\<exists>more. calls (snd (init_vector_store c' fs' secrets' w')) =
            calls w' @ [VectorStoresRetrieve sid', VectorStoresCreate VS_NAME] @ more)
      \<and> count_calls is_index_create (snd (init_vector_store c' fs' secrets' w')) =
          count_calls is_index_create w' + 1
      \<and> count_calls is_upload (snd (init_vector_store c' fs' secrets' w')) \<le>
          count_calls is_upload w' + 1)
   \<and> (vector_store (session w') = Some None
      \<and> secrets' ''VECTOR_STORE_ID'' = Some entry' \<and> entry' ''vs_id'' = Some sid'
      \<and> vector_stores_retrieve c' (calls w' @ [VectorStoresRetrieve sid']) = Inl e
      \<and> vector_stores_create c'
            (calls w' @ [VectorStoresRetrieve sid', VectorStoresCreate VS_NAME]) = Inr vs'
      \<and> get_pdf_file_paths fs' = Inr ps \<and> ps \<noteq> [] \<and> open_all fs' ps = Inr files \<longrightarrow>
        count_calls is_upload (snd (init_vector_store c' fs' secrets' w')) =
          count_calls is_upload w' + 1
      \<and> FileBatchesUploadAndPoll (vector_store_id vs') files \<in>
          set (calls (snd (init_vector_store c' fs' secrets' w'))))"
proof (intro conjI impI; (elim conjE)?)
  assume h: "vector_store (session w) = Some None" "assistant (session w) = Some a"
    "secrets ''VECTOR_STORE_ID'' = Some entry" "entry ''vs_id'' = Some sid"
    "vector_stores_retrieve c (calls w @ [VectorStoresRetrieve sid]) = Inr vs"
  note r = reuse_persisted [where secrets = secrets and entry = entry and fs = fs, OF h]
  show "vector_store (session (snd (init_vector_store c fs secrets w))) = Some (Some vs)"
    by (rule r(2))
  show "calls (snd (init_vector_store c fs secrets w)) =
          calls w @ [VectorStoresRetrieve sid,
                     AssistantsUpdateToolResources (assistant_id a) [vector_store_id vs]]"
    by (rule r(1))
  show "count_calls is_index_create (snd (init_vector_store c fs secrets w)) =
          count_calls is_index_create w"
    by (simp add: count_calls_def r(1))
  show "count_calls is_upload (snd (init_vector_store c fs secrets w)) =
          count_calls is_upload w"
    by (simp add: count_calls_def r(1))
next
  assume h: "vector_store (session w') = Some None"
    "secrets' ''VECTOR_STORE_ID'' = Some entry'" "entry' ''vs_id'' = Some sid'"
    "vector_stores_retrieve c' (calls w' @ [VectorStoresRetrieve sid']) = Inl e"
  from init_after_failed_fetch [where secrets = secrets' and entry = entry' and fs = fs', OF h] obtain more evs where
    m: "calls (snd (init_vector_store c' fs' secrets' w')) =
          calls w' @ [VectorStoresRetrieve sid', VectorStoresCreate VS_NAME] @ more"
      "ui (snd (init_vector_store c' fs' secrets' w')) = ui w' @ failed_to_load e # evs"
      "filter is_index_create more = []"
      "length (filter is_upload more) \<le> 1"
    by (auto split: sum.splits if_splits)
  show "failed_to_load e \<in> set (ui (snd (init_vector_store c' fs' secrets' w')))"
    by (simp add: m(2))
  show "\<exists>more. calls (snd (init_vector_store c' fs' secrets' w')) =
            calls w' @ [VectorStoresRetrieve sid', VectorStoresCreate VS_NAME] @ more"
    using m(1) by blast
  show "count_calls is_index_create (snd (init_vector_store c' fs' secrets' w')) =
          count_calls is_index_create w' + 1"
    by (simp add: count_calls_def m(1,3))
  show "count_calls is_upload (snd (init_vector_store c' fs' secrets' w')) \<le>
          count_calls is_upload w' + 1"
    using m(4) by (simp add: count_calls_def m(1))
next
  assume h: "vector_store (session w') = Some None"
    "secrets' ''VECTOR_STORE_ID'' = Some entry'" "entry' ''vs_id'' = Some sid'"
    "vector_stores_retrieve c' (calls w' @ [VectorStoresRetrieve sid']) = Inl e"
  assume k: "vector_stores_create c'
            (calls w' @ [VectorStoresRetrieve sid', VectorStoresCreate VS_NAME]) = Inr vs'"
    "get_pdf_file_paths fs' = Inr ps" "ps \<noteq> []" "open_all fs' ps = Inr files"
  from init_after_failed_fetch [where secrets = secrets' and entry = entry' and fs = fs', OF h] k obtain more where
    m: "calls (snd (init_vector_store c' fs' secrets' w')) =
          calls w' @ [VectorStoresRetrieve sid', VectorStoresCreate VS_NAME] @ more"
      "filter is_upload more = [FileBatchesUploadAndPoll (vector_store_id vs') files]"
    by auto
  show "count_calls is_upload (snd (init_vector_store c' fs' secrets' w')) =
          count_calls is_upload w' + 1"
    by (simp add: count_calls_def m)
  have "FileBatchesUploadAndPoll (vector_store_id vs') files \<in> set (filter is_upload more)"
    by (simp add: m(2))
  then show "FileBatchesUploadAndPoll (vector_store_id vs') files \<in>
          set (calls (snd (init_vector_store c' fs' secrets' w')))"
    by (simp add: m(1))
qed

lemma one_letter: 
  "get_pdf_file_paths (folders_fs (Some [''a.pdf'']) None) = Inr [''data/Letters/a.pdf'']"
  by (simp add: get_pdf_file_paths_eq eval_folders eval_names)

theorem persisted_index_reuse_and_fallback_witness:
  "calls (snd (init_vector_store (fake_client never []) (folders_fs (Some [''a.pdf'']) None)
       (stored_id ''vs_saved'') started_world)) =
     calls started_world @ [VectorStoresRetrieve ''vs_saved'',
                            AssistantsUpdateToolResources ''asst_1'' [''vs_saved'']]
   \<and> count_calls is_index_create (snd (init_vector_store (fake_client never [])
       (folders_fs (Some [''a.pdf'']) None) (stored_id ''vs_saved'') started_world)) = 0
   \<and> count_calls is_upload (snd (init_vector_store (fake_client never [])
       (folders_fs (Some [''a.pdf'']) None) (stored_id ''vs_saved'') started_world)) = 0
   \<and> failed_to_load (APIError ''Connection error.'') \<in>
       set (ui (snd (init_vector_store (fake_client is_retrieve [])
         (folders_fs (Some [''a.pdf'']) None) (stored_id ''vs_saved'') started_world)))
   \<and> count_calls is_index_create (snd (init_vector_store (fake_client is_retrieve [])
       (folders_fs (Some [''a.pdf'']) None) (stored_id ''vs_saved'') started_world)) = 1
   \<and> count_calls is_upload (snd (init_vector_store (fake_client is_retrieve [])
       (folders_fs (Some [''a.pdf'']) None) (stored_id ''vs_saved'') started_world)) = 1
   \<and> FileBatchesUploadAndPoll ''vs_1'' [FileStream ''data/Letters/a.pdf''] \<in>
       set (calls (snd (init_vector_store (fake_client is_retrieve [])
         (folders_fs (Some [''a.pdf'']) None) (stored_id ''vs_saved'') started_world)))"
proof -
  let ?fs = "folders_fs (Some [''a.pdf'']) None"
  let ?a = "\<lparr>assistant_id = ''asst_1'', instructions = get_instructions ''Applicant'',
             vector_store_ids = []\<rparr>"
  let ?entry = "[''vs_id'' \<mapsto> ''vs_saved'']"
  have w: "vector_store (session started_world) = Some None"
    "assistant (session started_world) = Some ?a"
    "count_calls is_index_create started_world = 0"
    "count_calls is_upload started_world = 0"
    by (simp_all add: started_world_def count_calls_def)
  have s: "stored_id ''vs_saved'' ''VECTOR_STORE_ID'' = Some ?entry"
    "?entry ''vs_id'' = Some ''vs_saved''"
    by (simp_all add: stored_id_def)
  have ok: "vector_stores_retrieve (fake_client never [])
      (calls started_world @ [VectorStoresRetrieve ''vs_saved'']) = Inr \<lparr>vector_store_id = ''vs_saved''\<rparr>"
    by (simp add: eval_remote)
  have ko: "vector_stores_retrieve (fake_client is_retrieve [])
      (calls started_world @ [VectorStoresRetrieve ''vs_saved'']) = Inl (APIError ''Connection error.'')"
    by (simp add: eval_remote)
  have cr: "vector_stores_create (fake_client is_retrieve [])
      (calls started_world @ [VectorStoresRetrieve ''vs_saved'', VectorStoresCreate VS_NAME]) =
      Inr \<lparr>vector_store_id = ''vs_1''\<rparr>"
    by (simp add: eval_remote)
  have op: "open_all ?fs [''data/Letters/a.pdf''] = Inr [FileStream ''data/Letters/a.pdf'']"
    by (simp add: folders_fs_def)
  show ?thesis
    using persisted_index_reuse_and_fallback
      [where w = started_world and a = ?a and secrets = "stored_id ''vs_saved''"
         and entry = ?entry and sid = "''vs_saved''" and c = "fake_client never []"
         and vs = "\<lparr>vector_store_id = ''vs_saved''\<rparr>" and fs = ?fs
         and w' = started_world and secrets' = "stored_id ''vs_saved''"
         and entry' = ?entry and sid' = "''vs_saved''" and c' = "fake_client is_retrieve []"
         and e = "APIError ''Connection error.''" and fs' = ?fs
         and vs' = "\<lparr>vector_store_id = ''vs_1''\<rparr>" and ps = "[''data/Letters/a.pdf'']"
         and files = "[FileStream ''data/Letters/a.pdf'']"]
      w s ok ko cr op one_letter
    by simp
qed

text \<open>
  C7: a folder that does not exist contributes no file and is never listed, so it raises
  nothing: with both folders missing \<open>get_pdf_file_paths\<close> returns the empty list, with
  the letters folder missing it returns what the ordinances folder gives, and with the
  ordinances folder missing what the letters folder gives.  With both missing and no
  persisted identifier, the Remote Index Manager creates the index, sends no upload
  request, keeps the new index in the session and attaches it to the assistant.
\<close>

theorem missing_folders:
  "(\<not> os_path_exists fs LETTERS_DIR \<and> \<not> os_path_exists fs ORDINANCES_DIR \<longrightarrow>
      get_pdf_file_paths fs = Inr [])
   \<and> (\<not> os_path_exists fs1 LETTERS_DIR \<longrightarrow>
      get_pdf_file_paths fs1 =
        (case ordinances_names fs1 of
           Inl e \<Rightarrow> Inl e
         | Inr os \<Rightarrow> Inr (statewide_part fs1 @ other_ordinances_pdfs os)))
   \<and> (\<not> os_path_exists fs2 ORDINANCES_DIR \<longrightarrow>
      get_pdf_file_paths fs2 =
        (case letters_names fs2 of Inl e \<Rightarrow> Inl e | Inr ls \<Rightarrow> Inr (letters_pdfs ls)))
   \<and> (\<not> os_path_exists fs LETTERS_DIR \<and> \<not> os_path_exists fs ORDINANCES_DIR
      \<and> vector_store (session w) = Some None \<and> assistant (session w) = Some a
      \<and> secrets ''VECTOR_STORE_ID'' = None
      \<and> vector_stores_create c (calls w @ [VectorStoresCreate VS_NAME]) = Inr vs \<longrightarrow>
        fst (create_vector_store c fs w) = Inr vs
      \<and> vector_store (session (snd (init_vector_store c fs secrets w))) = Some (Some vs)
      \<and> calls (snd (init_vector_store c fs secrets w)) =
          calls w @ [VectorStoresCreate VS_NAME,
                     AssistantsUpdateToolResources (assistant_id a) [vector_store_id vs]]
      \<and> count_calls is_upload (snd (init_vector_store c fs secrets w)) =
          count_calls is_upload w)"
proof (intro conjI impI; (elim conjE)?)
  assume "\<not> os_path_exists fs LETTERS_DIR" "\<not> os_path_exists fs ORDINANCES_DIR"
  then show "get_pdf_file_paths fs = Inr []"
    by (simp add: get_pdf_file_paths_def)
next
  assume "\<not> os_path_exists fs1 LETTERS_DIR"
  then show "get_pdf_file_paths fs1 =
        (case ordinances_names fs1 of
           Inl e \<Rightarrow> Inl e
         | Inr os \<Rightarrow> Inr (statewide_part fs1 @ other_ordinances_pdfs os))"
    by (simp add: get_pdf_file_paths_eq letters_names_def letters_pdfs_def split: sum.splits)
next
  assume "\<not> os_path_exists fs2 ORDINANCES_DIR"
  then show "get_pdf_file_paths fs2 =
        (case letters_names fs2 of Inl e \<Rightarrow> Inl e | Inr ls \<Rightarrow> Inr (letters_pdfs ls))"
    by (simp add: get_pdf_file_paths_eq ordinances_names_def other_ordinances_pdfs_def
        statewide_part_def split: sum.splits)
next
  assume h: "\<not> os_path_exists fs LETTERS_DIR" "\<not> os_path_exists fs ORDINANCES_DIR"
    "vector_store (session w) = Some None" "assistant (session w) = Some a"
    "secrets ''VECTOR_STORE_ID'' = None"
    "vector_stores_create c (calls w @ [VectorStoresCreate VS_NAME]) = Inr vs"
  have e: "get_pdf_file_paths fs = Inr []"
    using h(1,2) by (simp add: get_pdf_file_paths_def)
  show "fst (create_vector_store c fs w) = Inr vs"
    using h e by (simp add: create_vector_store_def bind_def api_def lift_def st_write_def
        ret_def Let_def)
  have i: "calls (snd (init_vector_store c fs secrets w)) =
          calls w @ [VectorStoresCreate VS_NAME,
                     AssistantsUpdateToolResources (assistant_id a) [vector_store_id vs]]
      \<and> vector_store (session (snd (init_vector_store c fs secrets w))) = Some (Some vs)"
    using h e
    by (simp add: init_vector_store_def load_persisted_def create_vector_store_def bind_def
        api_def lift_def st_write_def ret_def get_slot_def set_vector_store_def
        set_assistant_def Let_def split: sum.splits)
  then show "vector_store (session (snd (init_vector_store c fs secrets w))) = Some (Some vs)"
    and "calls (snd (init_vector_store c fs secrets w)) =
          calls w @ [VectorStoresCreate VS_NAME,
                     AssistantsUpdateToolResources (assistant_id a) [vector_store_id vs]]"
    by simp_all
  show "count_calls is_upload (snd (init_vector_store c fs secrets w)) =
          count_calls is_upload w"
    using i by (simp add: count_calls_def)
qed

theorem missing_folders_witness:
  "get_pdf_file_paths (folders_fs None None) = Inr []
   \<and> get_pdf_file_paths (folders_fs None (Some [''ADUHandbookUpdate.pdf'', ''c.pdf''])) =
       Inr [''data/Ordinances/ADUHandbookUpdate.pdf'', ''data/Ordinances/c.pdf'']
   \<and> get_pdf_file_paths (folders_fs (Some [''a.pdf'', ''readme.md'']) None) =
       Inr [''data/Letters/a.pdf'']
   \<and> fst (create_vector_store (fake_client never []) (folders_fs None None) started_world) =
       Inr \<lparr>vector_store_id = ''vs_1''\<rparr>
   \<and> vector_store (session (snd (init_vector_store (fake_client never [])
         (folders_fs None None) Map.empty started_world))) =
       Some (Some \<lparr>vector_store_id = ''vs_1''\<rparr>)
   \<and> calls (snd (init_vector_store (fake_client never []) (folders_fs None None) Map.empty
         started_world)) =
       calls started_world @ [VectorStoresCreate VS_NAME,
                              AssistantsUpdateToolResources ''asst_1'' [''vs_1'']]
   \<and> count_calls is_upload (snd (init_vector_store (fake_client never [])
         (folders_fs None None) Map.empty started_world)) = 0"
proof -
  let ?fs = "folders_fs None None"
  let ?fs1 = "folders_fs None (Some [''ADUHandbookUpdate.pdf'', ''c.pdf''])"
  let ?fs2 = "folders_fs (Some [''a.pdf'', ''readme.md'']) None"
  let ?a = "\<lparr>assistant_id = ''asst_1'', instructions = get_instructions ''Applicant'',
             vector_store_ids = []\<rparr>"
  have f: "\<not> os_path_exists ?fs LETTERS_DIR" "\<not> os_path_exists ?fs ORDINANCES_DIR"
    "\<not> os_path_exists ?fs1 LETTERS_DIR" "\<not> os_path_exists ?fs2 ORDINANCES_DIR"
    by (simp_all add: folders_fs_def dirs_simps os_path_join_def)
  have v: "ordinances_names ?fs1 = Inr [''ADUHandbookUpdate.pdf'', ''c.pdf'']"
    "statewide_part ?fs1 = [''data/Ordinances/ADUHandbookUpdate.pdf'']"
    "letters_names ?fs2 = Inr [''a.pdf'', ''readme.md'']"
    by (simp_all add: eval_folders eval_names)
  have w: "vector_store (session started_world) = Some None"
    "assistant (session started_world) = Some ?a"
    "count_calls is_upload started_world = 0"
    by (simp_all add: started_world_def count_calls_def)
  have cr: "vector_stores_create (fake_client never [])
      (calls started_world @ [VectorStoresCreate VS_NAME]) = Inr \<lparr>vector_store_id = ''vs_1''\<rparr>"
    by (simp add: eval_remote)
  show ?thesis
    using missing_folders [where fs = ?fs and ?fs1.0 = ?fs1 and ?fs2.0 = ?fs2
        and w = started_world and a = ?a and secrets = Map.empty
        and c = "fake_client never []" and vs = "\<lparr>vector_store_id = ''vs_1''\<rparr>"]
      f v w cr
    by (simp add: eval_names dirs_simps)
qed

section \<open>Role reconciliation\<close>

lemma invariant_ret: "invariant I (ret x)"
  and invariant_raise: "invariant I (raise e)"
  and invariant_lift: "invariant I (lift r)"
  and invariant_in_session: "invariant I (in_session slot)"
  and invariant_get_slot: "invariant I (get_slot slot' name)"
  by (simp_all add: invariant_def ret_def raise_def lift_def in_session_def get_slot_def
      split: option.splits)

lemma invariant_bind:
  "invariant I m \<Longrightarrow> (\<And>x. invariant I (g x)) \<Longrightarrow> invariant I (bind m g)"
  by (auto simp: invariant_def snd_bind split: prod.splits sum.splits)

lemma invariant_try_except:
  "invariant I m \<Longrightarrow> (\<And>e. invariant I (h e)) \<Longrightarrow> invariant I (try_except m h)"
  by (auto simp: invariant_def try_except_def split: prod.splits sum.splits)

lemma invariant_if:
  "invariant I a \<Longrightarrow> invariant I b \<Longrightarrow> invariant I (if c then a else b)"
  by simp

lemma invariant_case_option:
  "invariant I a \<Longrightarrow> (\<And>x. invariant I (b x)) \<Longrightarrow>
   invariant I (case opt of None \<Rightarrow> a | Some x \<Rightarrow> b x)"
  by (cases opt) simp_all

lemma invariant_case_list:
  "invariant I a \<Longrightarrow> (\<And>x xs. invariant I (b x xs)) \<Longrightarrow>
   invariant I (case l of [] \<Rightarrow> a | x # xs \<Rightarrow> b x xs)"
  by (cases l) simp_all

lemma invariant_case_block:
  "(\<And>x. invariant I (a x)) \<Longrightarrow> (\<And>x. invariant I (b x)) \<Longrightarrow>
   invariant I (case blk of TextContentBlock x \<Rightarrow> a x | ImageFileContentBlock x \<Rightarrow> b x)"
  by (cases blk) simp_all

lemmas invariant_intros =
  invariant_bind invariant_try_except invariant_if invariant_case_option invariant_case_list
  invariant_case_block invariant_ret invariant_raise invariant_lift invariant_in_session
  invariant_get_slot

lemma invariantD: "invariant I m \<Longrightarrow> I w \<Longrightarrow> I (snd (m w))"
  by (simp add: invariant_def)

lemma has_assistant_steps:
  "invariant has_assistant (api endpoint call)"
  "invariant has_assistant (st_write evs)"
  "invariant has_assistant (set_vector_store v)"
  "invariant has_assistant (set_current_role r)"
  "invariant has_assistant (set_assistant a)"
  "invariant has_assistant (set_messages ms)"
  by (simp_all add: invariant_def has_assistant_def api_def st_write_def set_vector_store_def
      set_current_role_def set_assistant_def set_messages_def Let_def)

lemmas has_assistant_intros = invariant_intros has_assistant_steps

lemma has_assistant_init_vector_store: "invariant has_assistant (init_vector_store c fs secrets)"
  unfolding init_vector_store_def load_persisted_def create_vector_store_def
  by (intro has_assistant_intros)

lemma has_assistant_render_history: "invariant has_assistant render_history"
  unfolding render_history_def by (intro has_assistant_intros)

lemma has_assistant_chat_input_handler: "invariant has_assistant (chat_input_handler c chat_input)"
  unfolding chat_input_handler_def generate_response_def append_message_def
  by (intro has_assistant_intros)

lemma persona_api: "\<not> is_persona_call call \<Longrightarrow> unchanged persona (api endpoint call)"
  by (simp add: unchanged_def persona_def api_def Let_def)

lemma persona_steps:
  "unchanged persona (st_write evs)"
  "unchanged persona (set_vector_store v)"
  "unchanged persona (set_assistant a)"
  "unchanged persona (set_messages ms)"
  by (simp_all add: unchanged_def persona_def st_write_def set_vector_store_def
      set_assistant_def set_messages_def)

lemmas persona_intros = unchanged_intros persona_api persona_steps

lemma persona_init_vector_store: "unchanged persona (init_vector_store c fs secrets)"
  unfolding init_vector_store_def load_persisted_def create_vector_store_def
  by (intro persona_intros; simp)

lemma persona_render_history: "unchanged persona render_history"
  unfolding render_history_def by (intro persona_intros)

lemma persona_chat_input_handler: "unchanged persona (chat_input_handler c chat_input)"
  unfolding chat_input_handler_def generate_response_def append_message_def
  by (intro persona_intros; simp)

lemma filter_persona:
  "filter is_instructions_update (filter is_persona_call xs) = filter is_instructions_update xs"
  "filter is_assistant_create (filter is_persona_call xs) = filter is_assistant_create xs"
proof (induction xs)
  case Nil
  { case 1 show ?case by simp }
  { case 2 show ?case by simp }
next
  case (Cons x xs)
  { case 1 with Cons show ?case by (cases x) simp_all }
  { case 2 with Cons show ?case by (cases x) simp_all }
qed

lemma persona_counts:
  assumes "persona w' = persona w"
  shows "count_calls is_instructions_update w' = count_calls is_instructions_update w"
    and "count_calls is_assistant_create w' = count_calls is_assistant_create w"
    and "current_role (session w') = current_role (session w)"
proof -
  from assms have f: "filter is_persona_call (calls w') = filter is_persona_call (calls w)"
    and r: "current_role (session w') = current_role (session w)"
    by (simp_all add: persona_def)
  show "count_calls is_instructions_update w' = count_calls is_instructions_update w"
    unfolding count_calls_def using f filter_persona(1) by metis
  show "count_calls is_assistant_create w' = count_calls is_assistant_create w"
    unfolding count_calls_def using f filter_persona(2) by metis
  show "current_role (session w') = current_role (session w)" by (rule r)
qed

lemma init_session_state_returns:
  assumes "fst (init_session_state c sel w) = Inr ()"
  shows "current_role (session (snd (init_session_state c sel w))) = Some (recorded_role w sel)"
    and "has_assistant (snd (init_session_state c sel w))"
    and "count_calls is_instructions_update (snd (init_session_state c sel w)) =
           count_calls is_instructions_update w"
  using assms
  by (simp_all add: init_session_state_def bind_def in_session_def set_vector_store_def
      set_current_role_def set_assistant_def set_messages_def ret_def api_def Let_def
      recorded_role_def has_assistant_def count_calls_def
      split: option.splits sum.splits if_splits)

lemma init_session_state_with_assistant:
  assumes "assistant (session w) = Some a"
  shows "fst (init_session_state c sel w) = Inr ()"
    and "assistant (session (snd (init_session_state c sel w))) = Some a"
    and "calls (snd (init_session_state c sel w)) = calls w"
  using assms
  by (simp_all add: init_session_state_def bind_def in_session_def set_vector_store_def
      set_current_role_def set_assistant_def set_messages_def ret_def Let_def
      split: option.splits)

lemma reconcile_role_calls:
  assumes "current_role (session w) = Some recorded" and "assistant (session w) = Some a"
  shows "calls (snd (reconcile_role c sel w)) =
           calls w @ (if recorded \<noteq> sel
                      then [AssistantsUpdateInstructions (assistant_id a) (get_instructions sel)]
                      else [])"
  using assms
  by (simp add: reconcile_role_def bind_def get_slot_def api_def set_assistant_def
      set_current_role_def ret_def Let_def split: sum.splits)

lemma reconcile_role_returns:
  assumes "current_role (session w) = Some recorded" and "assistant (session w) = Some a"
    and "\<forall>log. \<exists>a'. assistants_update c log = Inr a'"
  shows "fst (reconcile_role c sel w) = Inr ()"
    and "current_role (session (snd (reconcile_role c sel w))) = Some sel"
    and "has_assistant (snd (reconcile_role c sel w))"
proof -
  obtain a' where "assistants_update c (calls w @
      [AssistantsUpdateInstructions (assistant_id a) (get_instructions sel)]) = Inr a'"
    using assms(3) by blast
  with assms(1,2) show "fst (reconcile_role c sel w) = Inr ()"
    and "current_role (session (snd (reconcile_role c sel w))) = Some sel"
    and "has_assistant (snd (reconcile_role c sel w))"
    by (simp_all add: reconcile_role_def bind_def get_slot_def api_def set_assistant_def
      set_current_role_def ret_def Let_def has_assistant_def)
qed

lemma script_sections:
  "script c fs secrets sel chat_input =
     bind (init_session_state c sel) (\<lambda>_.
     bind (reconcile_role c sel) (\<lambda>_. after_reconciliation c fs secrets chat_input))"
  by (simp add: script_def prepare_def after_reconciliation_def bind_assoc)

lemma persona_after_reconciliation:
  "unchanged persona (after_reconciliation c fs secrets chat_input)"
  unfolding after_reconciliation_def
  by (intro unchanged_bind persona_init_vector_store persona_render_history
      persona_chat_input_handler)

lemma has_assistant_after_reconciliation:
  "invariant has_assistant (after_reconciliation c fs secrets chat_input)"
  unfolding after_reconciliation_def
  by (intro invariant_bind has_assistant_init_vector_store has_assistant_render_history
      has_assistant_chat_input_handler)

lemma script_after_init:
  assumes "init_session_state c sel w = (Inr (), w1)"
    and "current_role (session w1) = Some recorded" and "assistant (session w1) = Some a"
  shows "count_calls is_instructions_update (snd (script c fs secrets sel chat_input w)) =
           count_calls is_instructions_update w1 + (if recorded \<noteq> sel then 1 else 0)"
    and "count_calls is_assistant_create (snd (script c fs secrets sel chat_input w)) =
           count_calls is_assistant_create w1"
proof -
  obtain res w2 where r: "reconcile_role c sel w1 = (res, w2)" by (metis surj_pair)
  have c2: "calls w2 = calls w1 @ (if recorded \<noteq> sel
              then [AssistantsUpdateInstructions (assistant_id a) (get_instructions sel)]
              else [])"
    using reconcile_role_calls [OF assms(2,3), of c sel] r by simp
  let ?w3 = "snd (after_reconciliation c fs secrets chat_input w2)"
  have p: "persona ?w3 = persona w2"
    using persona_after_reconciliation by (rule unchangedD)
  have s: "snd (script c fs secrets sel chat_input w) = w2
      \<or> snd (script c fs secrets sel chat_input w) = ?w3"
    using assms(1) r by (cases res) (simp_all add: script_sections snd_bind)
  have u2: "count_calls is_instructions_update w2 =
      count_calls is_instructions_update w1 + (if recorded \<noteq> sel then 1 else 0)"
    by (simp add: count_calls_def c2)
  have k2: "count_calls is_assistant_create w2 = count_calls is_assistant_create w1"
    by (simp add: count_calls_def c2)
  show "count_calls is_instructions_update (snd (script c fs secrets sel chat_input w)) =
           count_calls is_instructions_update w1 + (if recorded \<noteq> sel then 1 else 0)"
    using s u2 persona_counts(1) [OF p] by auto
  show "count_calls is_assistant_create (snd (script c fs secrets sel chat_input w)) =
           count_calls is_assistant_create w1"
    using s k2 persona_counts(2) [OF p] by auto
qed

lemma script_instruction_updates:
  assumes "fst (init_session_state c sel w) = Inr ()"
  shows "count_calls is_instructions_update (snd (script c fs secrets sel chat_input w)) =
           count_calls is_instructions_update w + (if recorded_role w sel \<noteq> sel then 1 else 0)"
proof -
  obtain w1 where i: "init_session_state c sel w = (Inr (), w1)"
    using assms by (metis fst_conv surj_pair)
  note r = init_session_state_returns [OF assms]
  from r(2) i obtain a where a: "assistant (session w1) = Some a"
    by (auto simp: has_assistant_def)
  have cr: "current_role (session w1) = Some (recorded_role w sel)" using r(1) i by simp
  show ?thesis
    using script_after_init(1) [OF i cr a] r(3) i by simp
qed

lemma script_no_assistant_create:
  assumes "assistant (session w) = Some a"
  shows "count_calls is_assistant_create (snd (script c fs secrets sel chat_input w)) =
           count_calls is_assistant_create w"
proof -
  note k = init_session_state_with_assistant [OF assms, of c sel]
  obtain w1 where i: "init_session_state c sel w = (Inr (), w1)"
    using k(1) by (metis fst_conv surj_pair)
  have a: "assistant (session w1) = Some a" using k(2) i by simp
  have cr: "current_role (session w1) = Some (recorded_role w sel)"
    using init_session_state_returns(1) [OF k(1)] i by simp
  have "count_calls is_assistant_create w1 = count_calls is_assistant_create w"
    using k(3) i by (simp add: count_calls_def)
  then show ?thesis
    using script_after_init(2) [OF i cr a] by simp
qed

lemma script_role_step:
  assumes "current_role (session w) = Some recorded" and "assistant (session w) = Some a"
    and "\<forall>log. \<exists>a'. assistants_update c log = Inr a'"
  shows "current_role (session (snd (script c fs secrets sel chat_input w))) = Some sel"
    and "has_assistant (snd (script c fs secrets sel chat_input w))"
    and "count_calls is_instructions_update (snd (script c fs secrets sel chat_input w)) =
           count_calls is_instructions_update w + (if recorded \<noteq> sel then 1 else 0)"
proof -
  note k = init_session_state_with_assistant [OF assms(2), of c sel]
  obtain w1 where i: "init_session_state c sel w = (Inr (), w1)"
    using k(1) by (metis fst_conv surj_pair)
  have a: "assistant (session w1) = Some a" using k(2) i by simp
  have cr: "current_role (session w1) = Some recorded"
    using init_session_state_returns(1) [OF k(1)] i assms(1) by (simp add: recorded_role_def)
  note rr = reconcile_role_returns [OF cr a assms(3), of sel]
  obtain w2 where r: "reconcile_role c sel w1 = (Inr (), w2)"
    using rr(1) by (metis fst_conv surj_pair)
  let ?w3 = "snd (after_reconciliation c fs secrets chat_input w2)"
  have s: "snd (script c fs secrets sel chat_input w) = ?w3"
    using i r by (simp add: script_sections snd_bind)
  have p: "persona ?w3 = persona w2"
    using persona_after_reconciliation by (rule unchangedD)
  show "current_role (session (snd (script c fs secrets sel chat_input w))) = Some sel"
    using s persona_counts(3) [OF p] rr(2) r by simp
  show "has_assistant (snd (script c fs secrets sel chat_input w))"
    using s invariantD [OF has_assistant_after_reconciliation, of w2] rr(3) r by simp
  show "count_calls is_instructions_update (snd (script c fs secrets sel chat_input w)) =
           count_calls is_instructions_update w + (if recorded \<noteq> sel then 1 else 0)"
    using script_instruction_updates [OF k(1)] assms(1) by (simp add: recorded_role_def)
qed

lemma two_selections:
  assumes "current_role (session w) = Some recorded" and "assistant (session w) = Some a"
    and "\<forall>log. \<exists>a'. assistants_update c log = Inr a'"
  shows "count_calls is_instructions_update
           (run_session c fs secrets [(sel1, p1), (sel2, p2)] w) =
         count_calls is_instructions_update w
           + (if recorded \<noteq> sel1 then 1 else 0) + (if sel1 \<noteq> sel2 then 1 else 0)"
proof -
  let ?w1 = "snd (script c fs secrets sel1 p1 w)"
  note s1 = script_role_step [OF assms, of fs secrets sel1 p1]
  from s1(2) obtain a1 where a1: "assistant (session ?w1) = Some a1"
    by (auto simp: has_assistant_def)
  note s2 = script_role_step [OF s1(1) a1 assms(3), of fs secrets sel2 p2]
  show ?thesis using s1(3) s2(3) by simp
qed

text \<open>
  C5: the reconciliation step sends an instruction update exactly when the selected role
  differs from the recorded one, and then exactly one, addressed to the identifier of the
  assistant the session holds; in a script run that gets past session initialisation the
  number of instruction updates grows by one if the roles differ and not at all
  otherwise, and a run that starts with an assistant never sends a creation request.
  When update requests return, a session with Applicant recorded that selects Planner
  and then Applicant sends exactly two instruction updates, and one that selects Planner
  twice in a row sends one, the second selection adding none.
\<close>

theorem role_reconciliation:
  "(current_role (session w) = Some recorded \<and> assistant (session w) = Some a \<longrightarrow>
      calls (snd (reconcile_role c sel w)) =
        calls w @ (if recorded \<noteq> sel
                   then [AssistantsUpdateInstructions (assistant_id a) (get_instructions sel)]
                   else []))
   \<and> (fst (init_session_state c sel w) = Inr () \<longrightarrow>
      count_calls is_instructions_update (snd (script c fs secrets sel chat_input w)) =
        count_calls is_instructions_update w
          + (if recorded_role w sel \<noteq> sel then 1 else 0))
   \<and> (assistant (session w) = Some a \<longrightarrow>
      count_calls is_assistant_create (snd (script c fs secrets sel chat_input w)) =
        count_calls is_assistant_create w)
   \<and> ((\<forall>log. \<exists>a'. assistants_update c log = Inr a')
      \<and> current_role (session w) = Some ''Applicant'' \<and> assistant (session w) = Some a \<longrightarrow>
        count_calls is_instructions_update
          (run_session c fs secrets [(''Planner'', p1), (''Applicant'', p2)] w) =
          count_calls is_instructions_update w + 2
      \<and> count_calls is_instructions_update
          (run_session c fs secrets [(''Planner'', p1), (''Planner'', p2)] w) =
          count_calls is_instructions_update w + 1)"
proof (intro conjI impI; (elim conjE)?)
  assume "current_role (session w) = Some recorded" "assistant (session w) = Some a"
  then show "calls (snd (reconcile_role c sel w)) =
        calls w @ (if recorded \<noteq> sel
                   then [AssistantsUpdateInstructions (assistant_id a) (get_instructions sel)]
                   else [])"
    by (rule reconcile_role_calls)
next
  assume "fst (init_session_state c sel w) = Inr ()"
  then show "count_calls is_instructions_update (snd (script c fs secrets sel chat_input w)) =
        count_calls is_instructions_update w
          + (if recorded_role w sel \<noteq> sel then 1 else 0)"
    by (rule script_instruction_updates)
next
  assume "assistant (session w) = Some a"
  then show "count_calls is_assistant_create (snd (script c fs secrets sel chat_input w)) =
        count_calls is_assistant_create w"
    by (rule script_no_assistant_create)
next
  assume h: "\<forall>log. \<exists>a'. assistants_update c log = Inr a'"
    "current_role (session w) = Some ''Applicant''" "assistant (session w) = Some a"
  show "count_calls is_instructions_update
          (run_session c fs secrets [(''Planner'', p1), (''Applicant'', p2)] w) =
          count_calls is_instructions_update w + 2"
    using two_selections [OF h(2,3,1), of fs secrets "''Planner''" p1 "''Applicant''" p2]
    by simp
  show "count_calls is_instructions_update
          (run_session c fs secrets [(''Planner'', p1), (''Planner'', p2)] w) =
          count_calls is_instructions_update w + 1"
    using two_selections [OF h(2,3,1), of fs secrets "''Planner''" p1 "''Planner''" p2]
    by simp
qed

theorem role_reconciliation_witness:
  "calls (snd (reconcile_role (fake_client never []) ''Planner''
       (ready_world ''Applicant'' [greeting]))) =
     calls (ready_world ''Applicant'' [greeting]) @
       [AssistantsUpdateInstructions ''asst_1'' (get_instructions ''Planner'')]
   \<and> count_calls is_instructions_update
       (snd (script (fake_client never []) (folders_fs None None) Map.empty ''Planner'' None
          (ready_world ''Applicant'' [greeting]))) = 1
   \<and> count_calls is_assistant_create
       (snd (script (fake_client never []) (folders_fs None None) Map.empty ''Planner'' None
          (ready_world ''Applicant'' [greeting]))) = 0
   \<and> count_calls is_instructions_update
       (run_session (fake_client never []) (folders_fs None None) Map.empty
          [(''Planner'', None), (''Applicant'', None)] (ready_world ''Applicant'' [greeting])) = 2
   \<and> count_calls is_instructions_update
       (run_session (fake_client never []) (folders_fs None None) Map.empty
          [(''Planner'', None), (''Planner'', None)] (ready_world ''Applicant'' [greeting])) = 1"
proof -
  let ?w = "ready_world ''Applicant'' [greeting]"
  let ?c = "fake_client never []"
  let ?a = "\<lparr>assistant_id = ''asst_1'', instructions = get_instructions ''Applicant'',
             vector_store_ids = [''vs_1'']\<rparr>"
  have w: "current_role (session ?w) = Some ''Applicant''" "assistant (session ?w) = Some ?a"
    "count_calls is_instructions_update ?w = 0" "count_calls is_assistant_create ?w = 0"
    "recorded_role ?w ''Planner'' = ''Applicant''"
    by (simp_all add: ready_world_def count_calls_def recorded_role_def)
  have i: "fst (init_session_state ?c ''Planner'' ?w) = Inr ()"
    by (simp add: eval_prog ready_world_def)
  have u: "\<forall>log. \<exists>a'. assistants_update ?c log = Inr a'"
    by (simp add: fake_client_def answer_def never_def)
  show ?thesis
    using role_reconciliation [where w = ?w and recorded = "''Applicant''" and a = ?a
        and c = ?c and sel = "''Planner''" and fs = "folders_fs None None"
        and secrets = Map.empty and chat_input = None and ?p1.0 = None and ?p2.0 = None]
      w i u
    by simp
qed

section \<open>The index handle of the session\<close>

text \<open>
  What holds of the order of index resolution and reply generation: the chat input is
  read only in a run whose index slot holds an index, and an index held by the session
  is never replaced.
\<close>

lemma index_slot_api: "unchanged index_slot (api endpoint call)"
  by (simp add: unchanged_def api_def Let_def index_slot_def)

lemma index_slot_steps:
  "unchanged index_slot (st_write evs)"
  "unchanged index_slot (set_current_role r)"
  "unchanged index_slot (set_assistant a)"
  "unchanged index_slot (set_messages ms)"
  by (simp_all add: unchanged_def index_slot_def st_write_def set_current_role_def
      set_assistant_def set_messages_def)

lemmas index_slot_intros = unchanged_intros index_slot_api index_slot_steps

lemma index_slot_reconcile_role: "unchanged index_slot (reconcile_role c r)"
  unfolding reconcile_role_def by (intro index_slot_intros)

lemma index_slot_render_history: "unchanged index_slot render_history"
  unfolding render_history_def by (intro index_slot_intros)

lemma index_slot_chat_input_handler: "unchanged index_slot (chat_input_handler c chat_input)"
  unfolding chat_input_handler_def generate_response_def append_message_def
  by (intro index_slot_intros)

lemma index_slot_init_session_state:
  "index_slot w = Some v \<Longrightarrow> index_slot (snd (init_session_state c r w)) = Some v"
  by (simp add: init_session_state_def bind_def in_session_def set_vector_store_def
      set_current_role_def set_assistant_def set_messages_def ret_def api_def Let_def
      index_slot_def split: option.splits sum.splits)

lemma init_vector_store_skips:
  "index_slot w = Some (Some vs) \<Longrightarrow> init_vector_store c fs secrets w = (Inr (), w)"
  by (simp add: init_vector_store_def bind_def get_slot_def ret_def index_slot_def)

lemma init_vector_store_resolves:
  assumes "fst (init_vector_store c fs secrets w) = Inr ()"
  shows "\<exists>vs. index_slot (snd (init_vector_store c fs secrets w)) = Some (Some vs)"
proof (cases "index_slot w")
  case None
  with assms show ?thesis
    by (simp add: init_vector_store_def bind_def get_slot_def index_slot_def)
next
  case (Some v)
  show ?thesis
  proof (cases v)
    case (Some vs)
    with \<open>index_slot w = Some v\<close> show ?thesis
      by (simp add: init_vector_store_skips)
  next
    case None
    obtain res w1 where l: "bind (load_persisted c secrets)
        (\<lambda>loaded. case loaded of Some vs \<Rightarrow> ret vs | None \<Rightarrow> create_vector_store c fs) w
        = (res, w1)"
      by (metis surj_pair)
    show ?thesis
    proof (cases res)
      case (Inl e)
      with assms l None \<open>index_slot w = Some v\<close> show ?thesis
        by (simp add: init_vector_store_def bind_def get_slot_def index_slot_def
            split: prod.splits sum.splits)
    next
      case (Inr vs)
      with assms l None \<open>index_slot w = Some v\<close> show ?thesis
        by (auto simp: init_vector_store_def bind_def get_slot_def index_slot_def
            set_vector_store_def set_assistant_def api_def raise_def Let_def
            split: prod.splits sum.splits option.splits)
    qed
  qed
qed

lemma index_resolved_before_reply:
  assumes "fst (prepare c fs secrets r w) = Inr ()"
  shows "\<exists>vs. index_slot (snd (prepare c fs secrets r w)) = Some (Some vs)"
proof -
  obtain w1 where 1: "init_session_state c r w = (Inr (), w1)"
    using assms by (auto simp: prepare_def bind_def split: prod.splits sum.splits)
  obtain w2 where 2: "reconcile_role c r w1 = (Inr (), w2)"
    using assms 1 by (auto simp: prepare_def bind_def split: prod.splits sum.splits)
  obtain w3 where 3: "init_vector_store c fs secrets w2 = (Inr (), w3)"
    using assms 1 2 by (auto simp: prepare_def bind_def split: prod.splits sum.splits)
  from init_vector_store_resolves [of c fs secrets w2] 3
  obtain vs where "index_slot w3 = Some (Some vs)" by auto
  moreover have "snd (prepare c fs secrets r w) = snd (render_history w3)"
    using 1 2 3 by (simp add: prepare_def bind_def)
  ultimately show ?thesis
    using unchangedD [OF index_slot_render_history, of w3] by auto
qed

lemma index_handle_kept_by_script:
  assumes "index_slot w = Some (Some vs)"
  shows "index_slot (snd (script c fs secrets r chat_input w)) = Some (Some vs)"
proof -
  let ?rest = "bind (reconcile_role c r) (\<lambda>_. after_reconciliation c fs secrets chat_input)"
  obtain res w1 where i: "init_session_state c r w = (res, w1)" by (metis surj_pair)
  have s1: "index_slot w1 = Some (Some vs)"
    using index_slot_init_session_state [OF assms, of c r] i by simp
  obtain res2 w2 where r: "reconcile_role c r w1 = (res2, w2)" by (metis surj_pair)
  have s2: "index_slot w2 = Some (Some vs)"
    using unchangedD [OF index_slot_reconcile_role, of c r w1] r s1 by simp
  have a: "after_reconciliation c fs secrets chat_input w2 =
      bind render_history (\<lambda>_. chat_input_handler c chat_input) w2"
    using init_vector_store_skips [OF s2, of c fs secrets]
    by (simp add: after_reconciliation_def bind_def)
  have "unchanged index_slot (bind render_history (\<lambda>_. chat_input_handler c chat_input))"
    by (intro unchanged_bind index_slot_render_history index_slot_chat_input_handler)
  then have s3: "index_slot (snd (after_reconciliation c fs secrets chat_input w2)) =
      Some (Some vs)"
    using a s2 by (simp add: unchanged_def)
  have "snd (script c fs secrets r chat_input w) = w1
      \<or> snd (script c fs secrets r chat_input w) = w2
      \<or> snd (script c fs secrets r chat_input w) =
          snd (after_reconciliation c fs secrets chat_input w2)"
    using i r by (cases res; cases res2) (simp_all add: script_sections snd_bind)
  with s1 s2 s3 show ?thesis by auto
qed

lemma index_handle_kept_by_session:
  "index_slot w = Some (Some vs) \<Longrightarrow>
   index_slot (run_session c fs secrets inputs w) = Some (Some vs)"
proof (induction inputs arbitrary: w)
  case Nil
  then show ?case by simp
next
  case (Cons i inputs)
  obtain r chat_input where "i = (r, chat_input)" by (cases i)
  then show ?case
    using Cons.IH [OF index_handle_kept_by_script [OF Cons.prems]] by simp
qed

text \<open>
  C8, a run of the code that breaks it: the request that attaches the new index to the
  assistant fails in the first run, after the index has been stored in the session.  The
  next runs find the index slot filled and skip the whole block, so the attachment is
  never sent again: the reply cycle of the third run is reached with the only attachment
  request having failed, and the assistant the session holds references no index.
\<close>

theorem attach_failure_is_not_retried:
  "fst (script (fake_client is_tool_resources_update
                  [\<lparr>message_content = [TextContentBlock ''Hello'']\<rparr>])
          (folders_fs None None) Map.empty ''Applicant'' None new_session)
     = Inl (APIError ''Connection error.'')
   \<and> calls (run_session (fake_client is_tool_resources_update
                  [\<lparr>message_content = [TextContentBlock ''Hello'']\<rparr>])
          (folders_fs None None) Map.empty [(''Applicant'', None)] new_session)
     = [AssistantsCreate ''ADU Permit Chatbot Assistant'' (get_instructions ''Applicant'')
          ''gpt-4o'' [''file_search''],
        VectorStoresCreate VS_NAME,
        AssistantsUpdateToolResources ''asst_1'' [''vs_1'']]
   \<and> calls (run_session (fake_client is_tool_resources_update
                  [\<lparr>message_content = [TextContentBlock ''Hello'']\<rparr>])
          (folders_fs None None) Map.empty
          [(''Applicant'', None), (''Planner'', None), (''Planner'', Some ''hi'')] new_session)
     = [AssistantsCreate ''ADU Permit Chatbot Assistant'' (get_instructions ''Applicant'')
          ''gpt-4o'' [''file_search''],
        VectorStoresCreate VS_NAME,
        AssistantsUpdateToolResources ''asst_1'' [''vs_1''],
        AssistantsUpdateInstructions ''asst_1'' (get_instructions ''Planner''),
        ThreadsCreate [greeting, user_turn ''hi''],
        run_request \<lparr>thread_id = ''thread_1''\<rparr>
          \<lparr>assistant_id = ''asst_1'', instructions = get_instructions ''Planner'',
            vector_store_ids = []\<rparr>,
        list_request \<lparr>thread_id = ''thread_1''\<rparr> \<lparr>run_id = ''run_1'', status = ''completed''\<rparr>]
   \<and> session (run_session (fake_client is_tool_resources_update
                  [\<lparr>message_content = [TextContentBlock ''Hello'']\<rparr>])
          (folders_fs None None) Map.empty
          [(''Applicant'', None), (''Planner'', None), (''Planner'', Some ''hi'')] new_session)
     = \<lparr> vector_store = Some (Some \<lparr>vector_store_id = ''vs_1''\<rparr>),
         current_role = Some ''Planner'',
         assistant = Some \<lparr>assistant_id = ''asst_1'',
                           instructions = get_instructions ''Planner'',
                           vector_store_ids = []\<rparr>,
         messages = Some [greeting, user_turn ''hi'',
                          \<lparr>role = ''assistant'', content = ''Hello''\<rparr>] \<rparr>"
  by (simp add: eval_prog eval_remote no_folders run_request_def list_request_def
      user_turn_def strip_def isspace_def whitespace_def)

end
